theory Spec2Isabelle
  imports Main
begin

section \<open>Library functions the validator calls\<close>

text \<open>
  The validator of \<^verbatim>\<open>pkg/dns/config\<close> and \<^verbatim>\<open>pkg/dns/util\<close> decides everything through
  a handful of functions of the Go standard library (\<^verbatim>\<open>net\<close>, \<^verbatim>\<open>strconv\<close>,
  \<^verbatim>\<open>strings\<close>) and of \<^verbatim>\<open>k8s.io/apimachinery/pkg/util/validation\<close>. They are not part of
  the repository; each is embedded here after its library source, loop by loop, as
  the Go releases 1.10 to 1.16 have it (from 1.17 on \<^verbatim>\<open>ParseIP\<close> also refuses an octet
  written with a leading zero, which no statement below depends on). A Go string is a
  sequence of bytes, which is what \<^typ>\<open>string\<close> is.
\<close>

subsection \<open>Bytes and digits\<close>

definition byte :: "char \<Rightarrow> int" where
  "byte c = of_char c"

definition isDigit :: "char \<Rightarrow> bool" where
  "isDigit c = (byte CHR ''0'' \<le> byte c \<and> byte c \<le> byte CHR ''9'')"

definition isLowerHex :: "char \<Rightarrow> bool" where
  "isLowerHex c = (byte CHR ''a'' \<le> byte c \<and> byte c \<le> byte CHR ''f'')"

definition isUpperHex :: "char \<Rightarrow> bool" where
  "isUpperHex c = (byte CHR ''A'' \<le> byte c \<and> byte c \<le> byte CHR ''F'')"

text \<open>\<^verbatim>\<open>byteIndex(s, c)\<close>: the first index of \<open>c\<close> in \<open>s\<close>; Go's \<open>-1\<close> is \<open>None\<close>.\<close>

fun byteIndex :: "string \<Rightarrow> char \<Rightarrow> nat option" where
  "byteIndex [] c = None"
| "byteIndex (x # s) c =
     (if x = c then Some 0
      else case byteIndex s c of None \<Rightarrow> None | Some i \<Rightarrow> Some (Suc i))"

text \<open>\<^verbatim>\<open>last(s, c)\<close> of package net: the last index of \<open>c\<close> in \<open>s\<close>.\<close>

fun last_index :: "string \<Rightarrow> char \<Rightarrow> nat option" where
  "last_index [] c = None"
| "last_index (x # s) c =
     (case last_index s c of
        Some i \<Rightarrow> Some (Suc i)
      | None \<Rightarrow> if x = c then Some 0 else None)"

subsection \<open>strings.SplitN and strings.Split\<close>

text \<open>
  \<^verbatim>\<open>genSplit(s, sep, 0, n)\<close> for a separator of one byte, the only kind the repository
  passes (\<^verbatim>\<open>":"\<close> and \<^verbatim>\<open>","\<close>). The loop cuts at most \<open>n - 1\<close> times and stores the
  rest of the string as the last element.
\<close>

fun genSplit_loop :: "string \<Rightarrow> char \<Rightarrow> nat \<Rightarrow> string list" where
  "genSplit_loop s sep 0 = [s]"
| "genSplit_loop s sep (Suc k) =
     (case byteIndex s sep of
        None \<Rightarrow> [s]
      | Some m \<Rightarrow> take m s # genSplit_loop (drop (m + 1) s) sep k)"

definition Count :: "string \<Rightarrow> char \<Rightarrow> nat" where
  "Count s sep = length (filter (\<lambda>c. c = sep) s)"

definition SplitN :: "string \<Rightarrow> char \<Rightarrow> int \<Rightarrow> string list" where
  "SplitN s sep n =
     (if n = 0 then []
      else if n < 0 then genSplit_loop s sep (Count s sep)
      else genSplit_loop s sep (nat n - 1))"

definition Split :: "string \<Rightarrow> char \<Rightarrow> string list" where
  "Split s sep = SplitN s sep (- 1)"

text \<open>
  \<^verbatim>\<open>strings.Join(elems, sep)\<close> for a separator of one byte, the inverse of
  \<^verbatim>\<open>strings.Split\<close>.
\<close>

fun Join :: "string list \<Rightarrow> char \<Rightarrow> string" where
  "Join [] sep = []"
| "Join [a] sep = a"
| "Join (a # b # rest) sep = a @ sep # Join (b # rest) sep"

subsection \<open>strconv.ParseUint and strconv.Atoi\<close>

datatype NumError = ErrSyntax | ErrRange

text \<open>
  \<^verbatim>\<open>ParseUint(s, 10, bitSize)\<close>. The accumulator is a \<^verbatim>\<open>uint64\<close>: the cutoff test
  comes before the multiplication, and the addition wraps modulo \<open>2 ^ 64\<close>, which the
  code detects by \<^verbatim>\<open>n1 < n\<close>. In base 10 every byte that is not a decimal digit
  (a sign and an underscore included) is a syntax error.
\<close>

definition maxUint64 :: int where
  "maxUint64 = 2 ^ 64 - 1"

fun ParseUint_loop :: "string \<Rightarrow> int \<Rightarrow> int \<Rightarrow> NumError + int" where
  "ParseUint_loop [] maxVal n = Inr n"
| "ParseUint_loop (c # s) maxVal n =
     (if \<not> isDigit c then Inl ErrSyntax
      else if n \<ge> maxUint64 div 10 + 1 then Inl ErrRange
      else (let n10 = n * 10;
                n1 = (n10 + (byte c - byte CHR ''0'')) mod 2 ^ 64
            in if n1 < n10 \<or> n1 > maxVal then Inl ErrRange
               else ParseUint_loop s maxVal n1))"

definition ParseUint :: "string \<Rightarrow> nat \<Rightarrow> NumError + int" where
  "ParseUint s bitSize =
     (if s = [] then Inl ErrSyntax else ParseUint_loop s (2 ^ bitSize - 1) 0)"

text \<open>
  \<^verbatim>\<open>Atoi(s)\<close> is \<^verbatim>\<open>ParseInt(s, 10, 0)\<close> (its fast path computes the same): one optional
  sign, then \<^verbatim>\<open>ParseUint\<close> on the rest, then the range of a 64-bit \<^verbatim>\<open>int\<close>.
\<close>

definition Atoi :: "string \<Rightarrow> NumError + int" where
  "Atoi s =
     (if s = [] then Inl ErrSyntax
      else (let neg = (hd s = CHR ''-'');
                s1 = (if hd s = CHR ''+'' \<or> hd s = CHR ''-'' then tl s else s)
            in case ParseUint s1 64 of
                 Inl e \<Rightarrow> Inl e
               | Inr un \<Rightarrow>
                   if \<not> neg \<and> un \<ge> 2 ^ 63 then Inl ErrRange
                   else if neg \<and> un > 2 ^ 63 then Inl ErrRange
                   else Inr (if neg then - un else un)))"

subsection \<open>net.ParseIP\<close>

text \<open>
  An \<^verbatim>\<open>IP\<close> is a slice of bytes; \<^verbatim>\<open>ParseIP\<close> always produces the 16-byte form, an IPv4
  address behind the prefix of IPv4-mapped IPv6 addresses. \<open>None\<close> is Go's \<^verbatim>\<open>nil\<close>.
\<close>

type_synonym IP = "int list"

definition IPv4len :: nat where
  "IPv4len = 4"

definition IPv6len :: nat where
  "IPv6len = 16"

definition big :: int where
  "big = 0xFFFFFF"

text \<open>
  \<^verbatim>\<open>dtoi(s)\<close>: decimal to integer; the number, the bytes consumed, success. The loop
  argument is the part of the string still to read, \<open>i\<close> the bytes read so far.
\<close>

fun dtoi_loop :: "string \<Rightarrow> int \<Rightarrow> nat \<Rightarrow> int \<times> nat \<times> bool" where
  "dtoi_loop [] n i = (if i = 0 then (0, 0, False) else (n, i, True))"
| "dtoi_loop (c # s) n i =
     (if isDigit c then
        (let n1 = n * 10 + (byte c - byte CHR ''0'')
         in if n1 \<ge> big then (big, i, False) else dtoi_loop s n1 (i + 1))
      else if i = 0 then (0, 0, False) else (n, i, True))"

definition dtoi :: "string \<Rightarrow> int \<times> nat \<times> bool" where
  "dtoi s = dtoi_loop s 0 0"

text \<open>\<^verbatim>\<open>xtoi(s)\<close>: hexadecimal to integer, in the same shape.\<close>

fun xtoi_loop :: "string \<Rightarrow> int \<Rightarrow> nat \<Rightarrow> int \<times> nat \<times> bool" where
  "xtoi_loop [] n i = (if i = 0 then (0, i, False) else (n, i, True))"
| "xtoi_loop (c # s) n i =
     (if isDigit c \<or> isLowerHex c \<or> isUpperHex c then
        (let n1 = (if isDigit c then n * 16 + (byte c - byte CHR ''0'')
                   else if isLowerHex c then n * 16 + (byte c - byte CHR ''a'') + 10
                   else n * 16 + (byte c - byte CHR ''A'') + 10)
         in if n1 \<ge> big then (0, i, False) else xtoi_loop s n1 (i + 1))
      else if i = 0 then (0, i, False) else (n, i, True))"

definition xtoi :: "string \<Rightarrow> int \<times> nat \<times> bool" where
  "xtoi s = xtoi_loop s 0 0"

definition v4InV6Prefix :: "int list" where
  "v4InV6Prefix = [0, 0, 0, 0, 0, 0, 0, 0, 0, 0, 0xff, 0xff]"

definition IPv4 :: "int \<Rightarrow> int \<Rightarrow> int \<Rightarrow> int \<Rightarrow> IP" where
  "IPv4 a b c d = v4InV6Prefix @ [a, b, c, d]"

text \<open>
  \<^verbatim>\<open>parseIPv4(s)\<close>: four decimal octets separated by dots. The loop returns the rest of
  the string and the octets, or \<open>None\<close> where the code returns \<^verbatim>\<open>nil\<close>.
\<close>

function parseIPv4_loop :: "nat \<Rightarrow> string \<Rightarrow> int list \<Rightarrow> (string \<times> int list) option" where
  "parseIPv4_loop i s p =
     (if i < IPv4len then
        (if s = [] then None
         else if i > 0 \<and> hd s \<noteq> CHR ''.'' then None
         else (let s1 = (if i > 0 then tl s else s)
               in case dtoi s1 of
                    (n, c, ok) \<Rightarrow>
                      if \<not> ok \<or> n > 0xFF then None
                      else parseIPv4_loop (i + 1) (drop c s1) (p[i := n])))
      else Some (s, p))"
  by pat_completeness auto
termination
  by (relation "measure (\<lambda>(i, s, p). IPv4len - i)") auto

declare parseIPv4_loop.simps [simp del]

definition parseIPv4 :: "string \<Rightarrow> IP option" where
  "parseIPv4 s =
     (case parseIPv4_loop 0 s [0, 0, 0, 0] of
        None \<Rightarrow> None
      | Some (s1, p) \<Rightarrow>
          if s1 \<noteq> [] then None else Some (IPv4 (p ! 0) (p ! 1) (p ! 2) (p ! 3)))"

text \<open>
  \<^verbatim>\<open>parseIPv6(s, false)\<close>. The loop state is the byte position \<open>i\<close> (always even and
  below 16 where a group is stored), the rest of the string, the address and the
  position of the ellipsis (\<open>-1\<close> for none). \<open>None\<close> is a \<^verbatim>\<open>return nil\<close> inside the
  loop; \<open>Some\<close> is the state at the loop's exit, by \<^verbatim>\<open>break\<close> or by its condition.
\<close>

function parseIPv6_loop ::
  "nat \<Rightarrow> string \<Rightarrow> int list \<Rightarrow> int \<Rightarrow> (nat \<times> string \<times> int list \<times> int) option" where
  "parseIPv6_loop i s ip ellipsis =
     (if i < IPv6len then
        (case xtoi s of
           (n, c, ok) \<Rightarrow>
             if \<not> ok \<or> n > 0xFFFF then None
             else if c < length s \<and> s ! c = CHR ''.'' then
               (if ellipsis < 0 \<and> i \<noteq> IPv6len - IPv4len then None
                else if i + IPv4len > IPv6len then None
                else (case parseIPv4 s of
                        None \<Rightarrow> None
                      | Some ip4 \<Rightarrow>
                          Some (i + IPv4len, [],
                                ip[i := ip4 ! 12, i + 1 := ip4 ! 13,
                                   i + 2 := ip4 ! 14, i + 3 := ip4 ! 15],
                                ellipsis)))
             else
               (let ip1 = ip[i := (n div 2 ^ 8) mod 2 ^ 8, i + 1 := n mod 2 ^ 8];
                    i1 = i + 2;
                    s1 = drop c s
                in if s1 = [] then Some (i1, s1, ip1, ellipsis)
                   else if hd s1 \<noteq> CHR '':'' \<or> length s1 = 1 then None
                   else (let s2 = tl s1
                         in if hd s2 = CHR '':'' then
                              (if ellipsis \<ge> 0 then None
                               else (let s3 = tl s2
                                     in if s3 = [] then Some (i1, s3, ip1, int i1)
                                        else parseIPv6_loop i1 s3 ip1 (int i1)))
                            else parseIPv6_loop i1 s2 ip1 ellipsis)))
      else Some (i, s, ip, ellipsis))"
  by pat_completeness auto
termination
  by (relation "measure (\<lambda>(i, s, ip, ellipsis). IPv6len - i)") auto

declare parseIPv6_loop.simps [simp del]

text \<open>
  The expansion of the ellipsis: the groups read after it move to the end, from the
  last one down, and the gap is zeroed.
\<close>

definition expand_ellipsis :: "int list \<Rightarrow> nat \<Rightarrow> nat \<Rightarrow> int list" where
  "expand_ellipsis ip i ellipsis =
     (let n = IPv6len - i;
          ip1 = fold (\<lambda>j ip. ip[j + n := ip ! j]) (rev [ellipsis..<i]) ip
      in fold (\<lambda>j ip. ip[j := 0]) (rev [ellipsis..<ellipsis + n]) ip1)"

definition parseIPv6 :: "string \<Rightarrow> IP option" where
  "parseIPv6 s0 =
     (let ip = replicate IPv6len 0;
          lead = (length s0 \<ge> 2 \<and> s0 ! 0 = CHR '':'' \<and> s0 ! 1 = CHR '':'');
          s = (if lead then drop 2 s0 else s0)
      in if lead \<and> s = [] then Some ip
         else (case parseIPv6_loop 0 s ip (if lead then 0 else - 1) of
                 None \<Rightarrow> None
               | Some (i, s1, ip1, ellipsis) \<Rightarrow>
                   if s1 \<noteq> [] then None
                   else if i < IPv6len then
                     (if ellipsis < 0 then None
                      else Some (expand_ellipsis ip1 i (nat ellipsis)))
                   else if ellipsis \<ge> 0 then None
                   else Some ip1))"

text \<open>\<^verbatim>\<open>ParseIP(s)\<close>: the first dot or colon of the string decides the parser.\<close>

fun ParseIP_scan :: "string \<Rightarrow> string \<Rightarrow> IP option" where
  "ParseIP_scan s [] = None"
| "ParseIP_scan s (c # cs) =
     (if c = CHR ''.'' then parseIPv4 s
      else if c = CHR '':'' then parseIPv6 s
      else ParseIP_scan s cs)"

definition ParseIP :: "string \<Rightarrow> IP option" where
  "ParseIP s = ParseIP_scan s s"

subsection \<open>IP.String\<close>

definition hexDigit :: string where
  "hexDigit = ''0123456789abcdef''"

text \<open>\<^verbatim>\<open>uitoa(val)\<close>: the decimal digits of an unsigned number, last digit first.\<close>

function uitoa_loop :: "int \<Rightarrow> string \<Rightarrow> string" where
  "uitoa_loop val buf =
     (if val \<ge> 10 then uitoa_loop (val div 10) (char_of (byte CHR ''0'' + val mod 10) # buf)
      else char_of (byte CHR ''0'' + val) # buf)"
  by pat_completeness auto
termination
proof (relation "measure (\<lambda>(val, buf). nat val)")
  show "wf (measure (\<lambda>(val, buf). nat val))"
    by (rule wf_measure)
next
  fix val :: int and buf :: string
  assume big: "10 \<le> val"
  then have "val div 10 < val"
    by (intro int_div_less_self) simp_all
  with big show "((val div 10, char_of (byte CHR ''0'' + val mod 10) # buf), val, buf)
        \<in> measure (\<lambda>(val, buf). nat val)"
    by (simp add: nat_less_iff)
qed

declare uitoa_loop.simps [simp del]

definition uitoa :: "int \<Rightarrow> string" where
  "uitoa val = (if val = 0 then ''0'' else uitoa_loop val [])"

text \<open>\<^verbatim>\<open>appendHex(dst, i)\<close>: the hexadecimal digits of a 16-bit group, no leading zeros.\<close>

definition appendHex :: "string \<Rightarrow> int \<Rightarrow> string" where
  "appendHex dst i =
     (if i = 0 then dst @ ''0''
      else fold (\<lambda>j dst. (let v = i div 2 ^ (j * 4)
                           in if v > 0 then dst @ [hexDigit ! nat (v mod 16)] else dst))
             (rev [0..<8]) dst)"

definition hexString :: "int list \<Rightarrow> string" where
  "hexString b = concat (map (\<lambda>tn. [hexDigit ! nat (tn div 16), hexDigit ! nat (tn mod 16)]) b)"

definition To4 :: "IP \<Rightarrow> IP option" where
  "To4 ip =
     (if length ip = IPv4len then Some ip
      else if length ip = IPv6len \<and> list_all (\<lambda>b. b = 0) (take 10 ip)
              \<and> ip ! 10 = 0xff \<and> ip ! 11 = 0xff
           then Some (drop 12 ip)
      else None)"

text \<open>The inner loop that measures a run of zero groups from position \<open>j\<close>.\<close>

function zero_run :: "IP \<Rightarrow> nat \<Rightarrow> nat" where
  "zero_run p j =
     (if j < IPv6len \<and> p ! j = 0 \<and> p ! (j + 1) = 0 then zero_run p (j + 2) else j)"
  by pat_completeness auto
termination
  by (relation "measure (\<lambda>(p, j). IPv6len - j)") auto

declare zero_run.simps [simp del]

text \<open>
  The outer loop that finds the longest run of zeros, \<open>[e0, e1)\<close>. After a run is
  recorded the code sets \<open>i = j\<close> and the loop header adds 2.
\<close>

function longest_zero_run :: "IP \<Rightarrow> nat \<Rightarrow> int \<Rightarrow> int \<Rightarrow> int \<times> int" where
  "longest_zero_run p i e0 e1 =
     (if i < IPv6len then
        (let j = zero_run p i
         in if j > i \<and> int j - int i > e1 - e0
            then longest_zero_run p (j + 2) (int i) (int j)
            else longest_zero_run p (i + 2) e0 e1)
      else (e0, e1))"
  by pat_completeness auto
termination
  by (relation "measure (\<lambda>(p, i, e0, e1). IPv6len - i)") auto

declare longest_zero_run.simps [simp del]

text \<open>
  The printing loop. At \<open>i = e0\<close> the code writes \<^verbatim>\<open>::\<close> and jumps to \<open>e1\<close>. The run
  found above is never empty, so \<open>e0 < e1\<close> there; the function stops on the other,
  unreachable case, which makes the recursion well-founded for every argument.
\<close>

function String_loop :: "IP \<Rightarrow> int \<Rightarrow> int \<Rightarrow> nat \<Rightarrow> string \<Rightarrow> string" where
  "String_loop p e0 e1 i b =
     (if i < IPv6len then
        (if int i = e0 then
           (if e1 \<le> e0 then b
            else (let b1 = b @ ''::''; i1 = nat e1
                  in if i1 \<ge> IPv6len then b1
                     else String_loop p e0 e1 (i1 + 2)
                            (appendHex b1 (p ! i1 * 2 ^ 8 + p ! (i1 + 1)))))
         else (let b1 = (if i > 0 then b @ '':'' else b)
               in String_loop p e0 e1 (i + 2) (appendHex b1 (p ! i * 2 ^ 8 + p ! (i + 1)))))
      else b)"
  by pat_completeness auto
termination
  by (relation "measure (\<lambda>(p, e0, e1, i, b). IPv6len - i)") auto

declare String_loop.simps [simp del]

definition IP_String :: "IP \<Rightarrow> string" where
  "IP_String ip =
     (if length ip = 0 then ''<nil>''
      else case To4 ip of
        Some p4 \<Rightarrow>
          uitoa (p4 ! 0) @ ''.'' @ uitoa (p4 ! 1) @ ''.'' @ uitoa (p4 ! 2) @ ''.'' @ uitoa (p4 ! 3)
      | None \<Rightarrow>
          if length ip \<noteq> IPv6len then ''?'' @ hexString ip
          else (case longest_zero_run ip 0 (- 1) (- 1) of
                  (e0, e1) \<Rightarrow>
                    if e1 - e0 \<le> 2 then String_loop ip (- 1) (- 1) 0 []
                    else String_loop ip e0 e1 0 []))"

subsection \<open>net.SplitHostPort\<close>

datatype AddrWhy =
  MissingPort | TooManyColons | MissingBracket | UnexpectedOpen | UnexpectedClose

text \<open>
  \<^verbatim>\<open>SplitHostPort(hostport)\<close>: the port starts after the last colon; a host in
  brackets must end just before that colon; a host without brackets has no colon.
  \<open>j\<close> and \<open>k\<close> are the positions from which no \<^verbatim>\<open>[\<close> and no \<^verbatim>\<open>]\<close> may follow.
\<close>

definition SplitHostPort :: "string \<Rightarrow> AddrWhy + (string \<times> string)" where
  "SplitHostPort hostport =
     (case last_index hostport CHR '':'' of
        None \<Rightarrow> Inl MissingPort
      | Some i \<Rightarrow>
          (let finish = (\<lambda>host j k.
                 if byteIndex (drop j hostport) CHR ''['' \<noteq> None then Inl UnexpectedOpen
                 else if byteIndex (drop k hostport) CHR '']'' \<noteq> None then Inl UnexpectedClose
                 else Inr (host, drop (i + 1) hostport))
           in if hd hostport = CHR ''['' then
                (case byteIndex hostport CHR '']'' of
                   None \<Rightarrow> Inl MissingBracket
                 | Some end \<Rightarrow>
                     if end + 1 = length hostport then Inl MissingPort
                     else if end + 1 = i then finish (drop 1 (take end hostport)) 1 (end + 1)
                     else if hostport ! (end + 1) = CHR '':'' then Inl TooManyColons
                     else Inl MissingPort)
              else (let host = take i hostport
                    in if byteIndex host CHR '':'' \<noteq> None then Inl TooManyColons
                       else finish host 0 0)))"

subsection \<open>validation.IsValidIP and validation.IsDNS1123Subdomain\<close>

text \<open>
  Both return the list of the reasons why the value is not valid, empty when it is.
  The subdomain test of \<^verbatim>\<open>k8s.io/apimachinery\<close> has two checks: the length of the whole
  value (at most 253 bytes) and the anchored regular expression
  \<^verbatim>\<open>[a-z0-9]([-a-z0-9]*[a-z0-9])?(\.[a-z0-9]([-a-z0-9]*[a-z0-9])?)*\<close>.
  A label of the expression holds no dot, so a string matches exactly when each of its
  dot-separated parts matches the label expression. The length of a single label is not
  tested by this function (the 63-byte limit belongs to \<^verbatim>\<open>IsDNS1123Label\<close>).
\<close>

datatype ValidationMsg = InvalidIPMsg | MaxLenError nat | RegexError

definition IsValidIP :: "string \<Rightarrow> ValidationMsg list" where
  "IsValidIP v = (if ParseIP v = None then [InvalidIPMsg] else [])"

definition isLowerAlnum :: "char \<Rightarrow> bool" where
  "isLowerAlnum c = ((byte CHR ''a'' \<le> byte c \<and> byte c \<le> byte CHR ''z'') \<or> isDigit c)"

definition dns1123Label_match :: "string \<Rightarrow> bool" where
  "dns1123Label_match l =
     (l \<noteq> [] \<and> isLowerAlnum (hd l) \<and> isLowerAlnum (last l)
      \<and> list_all (\<lambda>c. c = CHR ''-'' \<or> isLowerAlnum c) l)"

definition dns1123Subdomain_match :: "string \<Rightarrow> bool" where
  "dns1123Subdomain_match v = list_all dns1123Label_match (Split v CHR ''.'')"

definition DNS1123SubdomainMaxLength :: nat where
  "DNS1123SubdomainMaxLength = 253"

definition IsDNS1123Subdomain :: "string \<Rightarrow> ValidationMsg list" where
  "IsDNS1123Subdomain v =
     (if length v > DNS1123SubdomainMaxLength then [MaxLenError DNS1123SubdomainMaxLength] else [])
     @ (if \<not> dns1123Subdomain_match v then [RegexError] else [])"

section \<open>The configuration and its validation\<close>

text \<open>
  The errors the code builds. \<open>OtherError\<close> stands for an error made by a collaborator:
  the federation validators and a sync source's \<^verbatim>\<open>Once\<close>.
\<close>

datatype error =
    InvalidDomainName string
  | InvalidNameserver string
  | TooManyUpstreamNameservers
  | AddrError AddrWhy string
  | BadIPAddress string
  | BadPortNumber string
  | InvalidConfigmap
  | OtherError string

subsection \<open>util.ValidateNameserverIpAndPort\<close>

definition ValidateNameserverIpAndPort :: "string \<Rightarrow> error + (string \<times> string)" where
  "ValidateNameserverIpAndPort nameServer =
     (case ParseIP nameServer of
        Some ip \<Rightarrow> Inr (IP_String ip, ''53'')
      | None \<Rightarrow>
          (case SplitHostPort nameServer of
             Inl why \<Rightarrow> Inl (AddrError why nameServer)
           | Inr (host, port) \<Rightarrow>
               if ParseIP host = None then Inl (BadIPAddress host)
               else (case Atoi port of
                       Inl e \<Rightarrow> Inl (BadPortNumber port)
                     | Inr p \<Rightarrow>
                         if p < 1 \<or> p > 65535 then Inl (BadPortNumber port)
                         else Inr (host, port))))"

subsection \<open>Config and Validate\<close>

text \<open>
  A Go map is ranged over in an order the language leaves open. The two maps of a
  \<^verbatim>\<open>Config\<close> are lists of pairs in the order the range statement visits them, so a
  statement about every list is a statement about every order.
\<close>

record TypeMeta =
  Kind :: string
  APIVersion :: string

record Config =
  TypeMeta :: TypeMeta
  Federations :: "(string \<times> string) list"
  StubDomains :: "(string \<times> string list) list"
  UpstreamNameservers :: "string list"

definition NewDefaultConfig :: Config where
  "NewDefaultConfig =
     \<lparr>TypeMeta = \<lparr>Kind = [], APIVersion = []\<rparr>, Federations = [], StubDomains = [],
      UpstreamNameservers = []\<rparr>"

text \<open>
  Modelled from the spec: the two validators of package \<^verbatim>\<open>federation\<close>
  (\<^verbatim>\<open>ValidateName\<close>, \<^verbatim>\<open>ValidateDomain\<close>), whose source is not part of what is verified
  here. The spec treats them as opaque predicates returning ok or an error; they are
  parameters of the validation, each returning its error or \<open>None\<close>.
\<close>

record fed =
  ValidateName :: "string \<Rightarrow> error option"
  ValidateDomain :: "string \<Rightarrow> error option"

fun validateFederations_loop :: "fed \<Rightarrow> (string \<times> string) list \<Rightarrow> error option" where
  "validateFederations_loop f [] = None"
| "validateFederations_loop f ((name, domain) # rest) =
     (case ValidateName f name of
        Some err \<Rightarrow> Some err
      | None \<Rightarrow>
          (case ValidateDomain f domain of
             Some err \<Rightarrow> Some err
           | None \<Rightarrow> validateFederations_loop f rest))"

definition validateFederations :: "fed \<Rightarrow> Config \<Rightarrow> error option" where
  "validateFederations f config = validateFederations_loop f (Federations config)"

text \<open>The body of the inner loop of \<^verbatim>\<open>validateStubDomains\<close>, for one nameserver.\<close>

definition validateStubDomains_ns :: "string \<Rightarrow> error option" where
  "validateStubDomains_ns ns =
     (let nsStrings = SplitN ns CHR '':'' 2
      in if length nsStrings = 2 \<and> isl (ParseUint (nsStrings ! 1) 16)
         then Some (InvalidNameserver ns)
         else if length (IsValidIP (nsStrings ! 0)) > 0 \<and> length (IsDNS1123Subdomain ns) > 0
         then Some (InvalidNameserver ns)
         else None)"

fun validateStubDomains_nsList :: "string list \<Rightarrow> error option" where
  "validateStubDomains_nsList [] = None"
| "validateStubDomains_nsList (ns # rest) =
     (case validateStubDomains_ns ns of
        Some err \<Rightarrow> Some err
      | None \<Rightarrow> validateStubDomains_nsList rest)"

fun validateStubDomains_loop :: "(string \<times> string list) list \<Rightarrow> error option" where
  "validateStubDomains_loop [] = None"
| "validateStubDomains_loop ((domain, nsList) # rest) =
     (if length (IsDNS1123Subdomain domain) \<noteq> 0 then Some (InvalidDomainName domain)
      else (case validateStubDomains_nsList nsList of
              Some err \<Rightarrow> Some err
            | None \<Rightarrow> validateStubDomains_loop rest))"

definition validateStubDomains :: "Config \<Rightarrow> error option" where
  "validateStubDomains config = validateStubDomains_loop (StubDomains config)"

fun validateUpstreamNameserver_loop :: "string list \<Rightarrow> error option" where
  "validateUpstreamNameserver_loop [] = None"
| "validateUpstreamNameserver_loop (nameServer # rest) =
     (case ValidateNameserverIpAndPort nameServer of
        Inl err \<Rightarrow> Some err
      | Inr r \<Rightarrow> validateUpstreamNameserver_loop rest)"

definition validateUpstreamNameserver :: "Config \<Rightarrow> error option" where
  "validateUpstreamNameserver config =
     (if length (UpstreamNameservers config) > 3 then Some TooManyUpstreamNameservers
      else validateUpstreamNameserver_loop (UpstreamNameservers config))"

definition Validate :: "fed \<Rightarrow> Config \<Rightarrow> error option" where
  "Validate f config =
     (case validateFederations f config of
        Some err \<Rightarrow> Some err
      | None \<Rightarrow>
          (case validateStubDomains config of
             Some err \<Rightarrow> Some err
           | None \<Rightarrow>
               (case validateUpstreamNameserver config of
                  Some err \<Rightarrow> Some err
                | None \<Rightarrow> None)))"

section \<open>Choosing and starting the sync source\<close>

subsection \<open>DNSConfig and NewConfigSync\<close>

text \<open>Durations are counts of nanoseconds, as \<^verbatim>\<open>time.Duration\<close> is.\<close>

definition Second :: int where
  "Second = 1000000000"

record DNSConfig =
  ClusterDomain :: string
  KubeConfigFile :: string
  KubeMasterURL :: string
  InitialSyncTimeout :: int
  HealthzPort :: int
  DNSBindAddress :: string
  DNSPort :: int
  Federations :: "(string \<times> string) list"
  ConfigMapNs :: string
  ConfigMap :: string
  ConfigDir :: string
  ConfigPeriod :: int
  NameServers :: string

definition NewDNSConfig :: DNSConfig where
  "NewDNSConfig =
     \<lparr>ClusterDomain = ''cluster.local.'', KubeConfigFile = [], KubeMasterURL = [],
      InitialSyncTimeout = 60 * Second, HealthzPort = 8081, DNSBindAddress = ''0.0.0.0'',
      DNSPort = 53, Federations = [], ConfigMapNs = ''kube-system'', ConfigMap = [],
      ConfigDir = [], ConfigPeriod = 10 * Second, NameServers = []\<rparr>"

text \<open>
  Modelled from the spec: the three sync sources, whose constructors
  (\<^verbatim>\<open>NewConfigMapSync\<close>, \<^verbatim>\<open>NewFileSync\<close>, \<^verbatim>\<open>NewNopSync\<close>) are in files of the package
  that are not at hand. The spec names them ConfigMap-backed, Directory-backed and
  Static/no-op; a handle is the source's kind with the arguments the call passes.
  \<open>'k\<close> is the Kubernetes client.
\<close>

datatype 'k Sync =
    NewConfigMapSync 'k string string
  | NewFileSync string int
  | NewNopSync Config

text \<open>\<^verbatim>\<open>glog.Fatal\<close> logs and ends the process: the function does not return.\<close>

datatype 'a exit = Fatal string | Return 'a

definition NewConfigSync :: "'k \<Rightarrow> DNSConfig \<Rightarrow> 'k Sync exit" where
  "NewConfigSync kubeClient config =
     (if ConfigMap config \<noteq> [] \<and> ConfigDir config \<noteq> [] then
        Fatal ''Cannot use both ConfigMap and ConfigDir''
      else if ConfigMap config \<noteq> [] then
        Return (NewConfigMapSync kubeClient (ConfigMapNs config) (ConfigMap config))
      else if ConfigDir config \<noteq> [] then
        Return (NewFileSync (ConfigDir config) (ConfigPeriod config))
      else
        (let conf = \<lparr>TypeMeta = \<lparr>Kind = [], APIVersion = []\<rparr>,
                     Federations = DNSConfig.Federations config,
                     StubDomains = [], UpstreamNameservers = []\<rparr>;
             conf1 = (if length (NameServers config) > 0
                      then conf\<lparr>UpstreamNameservers := Split (NameServers config) CHR '',''\<rparr>
                      else conf)
         in Return (NewNopSync conf1)))"

subsection \<open>StartConfigMapSync\<close>

text \<open>
  \<^verbatim>\<open>Sync\<close> is an interface; the function sees a handle only through its two methods,
  which are parameters here: \<open>Once\<close> returns Go's pair of a configuration pointer and
  an error, \<open>Periodic\<close> the channel of updates. The argument is a pointer to an
  interface value: \<open>None\<close> is the nil pointer, \<open>Some None\<close> a pointer to a nil
  interface, on which a method call panics. What the function does besides
  returning is a log of events, in the order of the calls; the \<^verbatim>\<open>go\<close> statement
  evaluates \<^verbatim>\<open>Periodic()\<close> in the caller and then starts \<^verbatim>\<open>periodicSync\<close> on its own.
\<close>

datatype 'ch event =
    OnceCalled
  | UpdateFuncCalled "Config option"
  | PeriodicCalled
  | GoPeriodicSync 'ch

datatype 'a outcome = Returned 'a | Panic

definition StartConfigMapSync ::
  "('s \<Rightarrow> Config option \<times> error option) \<Rightarrow> ('s \<Rightarrow> 'ch) \<Rightarrow> 's option option
     \<Rightarrow> 'ch event list \<times> error option outcome" where
  "StartConfigMapSync Once Periodic configSync =
     (case configSync of
        None \<Rightarrow> ([], Returned (Some InvalidConfigmap))
      | Some None \<Rightarrow> ([], Panic)
      | Some (Some sync) \<Rightarrow>
          (let log1 = [OnceCalled]
           in case Once sync of
                (initialConfig, err) \<Rightarrow>
                  if err \<noteq> None then (log1, Returned err)
                  else (let log2 = log1 @ [UpdateFuncCalled initialConfig];
                            log3 = log2 @ [PeriodicCalled];
                            log4 = log3 @ [GoPeriodicSync (Periodic sync)]
                        in (log4, Returned None))))"

section \<open>Predicates that state the properties\<close>

text \<open>The bytes of a dotted-decimal literal, to state what \<^verbatim>\<open>parseIPv4\<close> reads.\<close>

definition dotted :: "char \<Rightarrow> bool" where
  "dotted c = (isDigit c \<or> c = CHR ''.'')"

text \<open>The bytes of an IP literal, to state what \<^verbatim>\<open>ParseIP\<close> reads.\<close>

definition ipchar :: "char \<Rightarrow> bool" where
  "ipchar c = (isDigit c \<or> isLowerHex c \<or> isUpperHex c \<or> c = CHR '':'' \<or> c = CHR ''.'')"



section \<open>Inputs for the concrete checks\<close>

text \<open>
  A pair of federation validators that refuse the empty string, and configurations
  and settings in the shapes the properties speak of.
\<close>

definition fed_example :: fed where
  "fed_example =
     \<lparr>ValidateName = (\<lambda>name. if name = [] then Some (OtherError ''empty name'') else None),
      ValidateDomain =
        (\<lambda>domain. if domain = [] then Some (OtherError ''empty domain'') else None)\<rparr>"

definition config_bad_stub_and_upstream :: Config where
  "config_bad_stub_and_upstream =
     NewDefaultConfig\<lparr>Config.Federations := [(''fed'', ''example.com'')],
        StubDomains := [(''UPPER.local'', [''10.0.0.1''])],
        UpstreamNameservers := [''10.0.0.1:70000'']\<rparr>"

definition config_bad_federation :: Config where
  "config_bad_federation =
     config_bad_stub_and_upstream\<lparr>Config.Federations := [(''fed'', [])]\<rparr>"

definition config_valid :: Config where
  "config_valid =
     NewDefaultConfig\<lparr>Config.Federations := [(''fed'', ''example.com'')],
        StubDomains := [(''acme.local'', [''10.0.0.1'', ''ns1.example.com''])],
        UpstreamNameservers := [''8.8.8.8'', ''8.8.4.4:53'']\<rparr>"

definition config_four_upstream :: Config where
  "config_four_upstream =
     NewDefaultConfig\<lparr>UpstreamNameservers :=
        [''8.8.8.8'', ''8.8.4.4'', ''1.1.1.1'', ''1.0.0.1'']\<rparr>"

definition config_bracket_stub :: Config where
  "config_bracket_stub = NewDefaultConfig\<lparr>StubDomains := [(''acme.local'', [''[::1]:53''])]\<rparr>"

definition config_bracket_upstream :: Config where
  "config_bracket_upstream = NewDefaultConfig\<lparr>UpstreamNameservers := [''[::1]:53'']\<rparr>"

definition config_bracket_upstream_8053 :: Config where
  "config_bracket_upstream_8053 =
     config_valid\<lparr>UpstreamNameservers := [''[fe80::1]:8053'']\<rparr>"




definition settings_both :: DNSConfig where
  "settings_both = NewDNSConfig\<lparr>ConfigMap := ''kube-dns'', ConfigDir := ''/etc/kube-dns/''\<rparr>"

definition settings_configmap :: DNSConfig where
  "settings_configmap = NewDNSConfig\<lparr>ConfigMap := ''kube-dns''\<rparr>"

definition settings_dir :: DNSConfig where
  "settings_dir = NewDNSConfig\<lparr>ConfigDir := ''/etc/kube-dns/''\<rparr>"

definition settings_static :: DNSConfig where
  "settings_static =
     NewDNSConfig\<lparr>DNSConfig.Federations := [(''fed'', ''example.com'')],
                   NameServers := ''8.8.8.8,8.8.4.4''\<rparr>"

section \<open>The order of the validation passes\<close>

text \<open>
  C2. \<^verbatim>\<open>Validate\<close> runs the federation pass, then the stub-domain pass, then the
  upstream pass, and returns the error of the first pass that fails: an error of the
  federation pass is the result whatever the stub domains and the upstream list
  hold, an error of the stub-domain pass (the federations passing) is the result
  whatever the upstream list holds, and otherwise the result is that of the upstream
  pass. It returns no error exactly when all three passes return none.
\<close>

theorem Validate_three_passes:
  "(validateFederations f c = Some e \<longrightarrow>
      Validate f c = Some e
      \<and> Validate f (c\<lparr>StubDomains := sd, UpstreamNameservers := up\<rparr>) = Some e)
   \<and> (validateFederations f c = None \<and> validateStubDomains c = Some e \<longrightarrow>
      Validate f c = Some e \<and> Validate f (c\<lparr>UpstreamNameservers := up\<rparr>) = Some e)
   \<and> (validateFederations f c = None \<and> validateStubDomains c = None \<longrightarrow>
      Validate f c = validateUpstreamNameserver c)
   \<and> (Validate f c = None \<longleftrightarrow>
      validateFederations f c = None \<and> validateStubDomains c = None
      \<and> validateUpstreamNameserver c = None)"
  by (auto simp: Validate_def validateFederations_def validateStubDomains_def
      split: option.splits)

text \<open>
  A configuration whose stub-domain key and whose upstream entry are both invalid:
  the error is the stub-domain pass's, with or without the bad upstream entry.
\<close>

theorem Validate_three_passes_witness:
  "Validate fed_example config_bad_stub_and_upstream = Some (InvalidDomainName ''UPPER.local'')
   \<and> Validate fed_example (config_bad_stub_and_upstream\<lparr>UpstreamNameservers := []\<rparr>)
       = Some (InvalidDomainName ''UPPER.local'')
   \<and> Validate fed_example config_bad_federation = Some (OtherError ''empty domain'')
   \<and> validateStubDomains config_bad_federation = Some (InvalidDomainName ''UPPER.local'')
   \<and> Validate fed_example config_valid = None"
proof -
  have fedr: "validateFederations fed_example config_bad_stub_and_upstream = None"
    by code_simp
  have stub: "validateStubDomains config_bad_stub_and_upstream
                = Some (InvalidDomainName ''UPPER.local'')"
    by code_simp
  from fedr stub
    Validate_three_passes [of fed_example config_bad_stub_and_upstream
        "InvalidDomainName ''UPPER.local''" "[]" "[]"]
  have second: "Validate fed_example config_bad_stub_and_upstream
                  = Some (InvalidDomainName ''UPPER.local'')
     \<and> Validate fed_example (config_bad_stub_and_upstream\<lparr>UpstreamNameservers := []\<rparr>)
         = Some (InvalidDomainName ''UPPER.local'')"
    by blast
  have fedr1: "validateFederations fed_example config_bad_federation
                 = Some (OtherError ''empty domain'')"
    by code_simp
  have stub1: "validateStubDomains config_bad_federation
                 = Some (InvalidDomainName ''UPPER.local'')"
    by code_simp
  from fedr1
    Validate_three_passes [of fed_example config_bad_federation
        "OtherError ''empty domain''" "[]" "[]"]
  have first: "Validate fed_example config_bad_federation = Some (OtherError ''empty domain'')"
    by blast
  have fedr2: "validateFederations fed_example config_valid = None"
    by code_simp
  have stub2: "validateStubDomains config_valid = None"
    by code_simp
  have up2: "validateUpstreamNameserver config_valid = None"
    by code_simp
  from fedr2 stub2 up2
    Validate_three_passes [of fed_example config_valid "OtherError []" "[]" "[]"]
  have third: "Validate fed_example config_valid = None"
    by simp
  from second first stub1 third show ?thesis
    by blast
qed

text \<open>
  C7. A configuration with more than three upstream nameservers is refused whatever
  the entries are: the upstream pass returns the length error before it looks at an
  entry, so \<^verbatim>\<open>Validate\<close> returns an error, and that very error when the two earlier
  passes succeed.
\<close>

theorem Validate_too_many_upstream:
  "length (UpstreamNameservers c) > 3 \<Longrightarrow>
     validateUpstreamNameserver c = Some TooManyUpstreamNameservers
     \<and> Validate f c \<noteq> None
     \<and> (validateFederations f c = None \<and> validateStubDomains c = None \<longrightarrow>
          Validate f c = Some TooManyUpstreamNameservers)"
  by (auto simp: Validate_def validateUpstreamNameserver_def split: option.splits)

text \<open>Four entries that are each a valid nameserver are refused all the same.\<close>

theorem Validate_too_many_upstream_witness:
  "length (UpstreamNameservers config_four_upstream) > 3
   \<and> Validate fed_example config_four_upstream = Some TooManyUpstreamNameservers
   \<and> validateUpstreamNameserver_loop (UpstreamNameservers config_four_upstream) = None"
proof -
  have len: "length (UpstreamNameservers config_four_upstream) > 3"
    by (simp add: config_four_upstream_def)
  have fedr: "validateFederations fed_example config_four_upstream = None"
    by code_simp
  have stub: "validateStubDomains config_four_upstream = None"
    by code_simp
  have each: "validateUpstreamNameserver_loop (UpstreamNameservers config_four_upstream) = None"
    by code_simp
  from len fedr stub each Validate_too_many_upstream [OF len, of fed_example]
  show ?thesis by blast
qed

section \<open>Starting the sync\<close>

text \<open>
  C8. With a handle at hand, \<^verbatim>\<open>StartConfigMapSync\<close> calls \<^verbatim>\<open>Once\<close> first. When \<^verbatim>\<open>Once\<close>
  returns an error, that error is returned and nothing else happened: the update
  callback was not called and no delivery loop was started. When it returns none,
  the update callback is called with the initial configuration, then the channel is
  taken and the delivery loop started on it, and the function returns no error.
\<close>

theorem StartConfigMapSync_once_first:
  "(Once sync = (c, Some e) \<longrightarrow>
      StartConfigMapSync Once Periodic (Some (Some sync)) = ([OnceCalled], Returned (Some e)))
   \<and> (Once sync = (c, None) \<longrightarrow>
      StartConfigMapSync Once Periodic (Some (Some sync)) =
        ([OnceCalled, UpdateFuncCalled c, PeriodicCalled, GoPeriodicSync (Periodic sync)],
         Returned None))"
  by (simp add: StartConfigMapSync_def)

theorem StartConfigMapSync_once_first_witness:
  "StartConfigMapSync (\<lambda>s::unit. (None, Some (OtherError ''not found''))) (\<lambda>s. (7::nat))
     (Some (Some ())) = ([OnceCalled], Returned (Some (OtherError ''not found'')))
   \<and> StartConfigMapSync (\<lambda>s::unit. (Some NewDefaultConfig, None)) (\<lambda>s. (7::nat))
     (Some (Some ())) =
       ([OnceCalled, UpdateFuncCalled (Some NewDefaultConfig), PeriodicCalled, GoPeriodicSync 7],
        Returned None)"
  using StartConfigMapSync_once_first
          [of "\<lambda>s::unit. (None, Some (OtherError ''not found''))" "()" None
              "OtherError ''not found''" "\<lambda>s. (7::nat)"]
        StartConfigMapSync_once_first
          [of "\<lambda>s::unit. (Some NewDefaultConfig, None)" "()" "Some NewDefaultConfig"
              "OtherError []" "\<lambda>s. (7::nat)"]
  by simp

text \<open>
  C10. Called with a nil pointer, \<^verbatim>\<open>StartConfigMapSync\<close> returns the error
  "Invalid configmap specified" and has done nothing: no call of \<^verbatim>\<open>Once\<close>, of the
  update callback or of \<^verbatim>\<open>Periodic\<close>, and no delivery loop started.
\<close>

theorem StartConfigMapSync_nil_handle:
  "StartConfigMapSync Once Periodic None = ([], Returned (Some InvalidConfigmap))"
  by (simp add: StartConfigMapSync_def)

section \<open>The upstream nameserver check\<close>

lemma upstream_loop_None_iff:
  "validateUpstreamNameserver_loop nss = None
     \<longleftrightarrow> list_all (\<lambda>ns. \<not> isl (ValidateNameserverIpAndPort ns)) nss"
  by (induction nss) (auto split: sum.splits)

text \<open>
  C3. For every nameserver string of the upstream list: when the string parses as an
  IP literal, \<^verbatim>\<open>ValidateNameserverIpAndPort\<close> returns that IP (in its printed form) with
  port "53" and no error, nothing else being looked at. Otherwise it returns a host
  and a port exactly when the strict host:port split gives them, the host parses as
  an IP and the port parses as an integer from 1 to 65535; every other input is an
  error. The upstream pass over at most three entries succeeds exactly when each entry
  is accepted so. "10.0.0.1" and "10.0.0.1:5353" are accepted, "10.0.0.1:70000" is
  rejected for its port.
\<close>

theorem ValidateNameserverIpAndPort_forms:
  "(ParseIP ns = Some ip \<longrightarrow> ValidateNameserverIpAndPort ns = Inr (IP_String ip, ''53''))
   \<and> (ParseIP ns = None \<longrightarrow>
        (ValidateNameserverIpAndPort ns = Inr (host, port) \<longleftrightarrow>
           SplitHostPort ns = Inr (host, port) \<and> ParseIP host \<noteq> None
           \<and> (\<exists>p. Atoi port = Inr p \<and> 1 \<le> p \<and> p \<le> 65535)))
   \<and> (ParseIP ns = None \<longrightarrow>
        (isl (ValidateNameserverIpAndPort ns) \<longleftrightarrow>
           \<not> (\<exists>h q p. SplitHostPort ns = Inr (h, q) \<and> ParseIP h \<noteq> None
                  \<and> Atoi q = Inr p \<and> 1 \<le> p \<and> p \<le> 65535)))
   \<and> (length (UpstreamNameservers c) \<le> 3 \<longrightarrow>
        (validateUpstreamNameserver c = None \<longleftrightarrow>
           list_all (\<lambda>n. \<not> isl (ValidateNameserverIpAndPort n)) (UpstreamNameservers c)))
   \<and> ValidateNameserverIpAndPort ''10.0.0.1'' = Inr (''10.0.0.1'', ''53'')
   \<and> ValidateNameserverIpAndPort ''10.0.0.1:5353'' = Inr (''10.0.0.1'', ''5353'')
   \<and> ValidateNameserverIpAndPort ''10.0.0.1:70000'' = Inl (BadPortNumber ''70000'')"
proof -
  have direct: "ParseIP ns = Some ip \<longrightarrow>
      ValidateNameserverIpAndPort ns = Inr (IP_String ip, ''53'')"
    by (simp add: ValidateNameserverIpAndPort_def)
  have split_ok: "ParseIP ns = None \<longrightarrow>
        (ValidateNameserverIpAndPort ns = Inr (host, port) \<longleftrightarrow>
           SplitHostPort ns = Inr (host, port) \<and> ParseIP host \<noteq> None
           \<and> (\<exists>p. Atoi port = Inr p \<and> 1 \<le> p \<and> p \<le> 65535))"
    by (auto simp: ValidateNameserverIpAndPort_def split: sum.splits option.splits)
  have split_err: "ParseIP ns = None \<longrightarrow>
        (isl (ValidateNameserverIpAndPort ns) \<longleftrightarrow>
           \<not> (\<exists>h q p. SplitHostPort ns = Inr (h, q) \<and> ParseIP h \<noteq> None
                  \<and> Atoi q = Inr p \<and> 1 \<le> p \<and> p \<le> 65535))"
    by (auto simp: ValidateNameserverIpAndPort_def split: sum.splits option.splits)
  have pass: "length (UpstreamNameservers c) \<le> 3 \<longrightarrow>
        (validateUpstreamNameserver c = None \<longleftrightarrow>
           list_all (\<lambda>n. \<not> isl (ValidateNameserverIpAndPort n)) (UpstreamNameservers c))"
    by (simp add: validateUpstreamNameserver_def upstream_loop_None_iff)
  have ex1: "ValidateNameserverIpAndPort ''10.0.0.1'' = Inr (''10.0.0.1'', ''53'')"
    by code_simp
  have ex2: "ValidateNameserverIpAndPort ''10.0.0.1:5353'' = Inr (''10.0.0.1'', ''5353'')"
    by code_simp
  have ex3: "ValidateNameserverIpAndPort ''10.0.0.1:70000'' = Inl (BadPortNumber ''70000'')"
    by code_simp
  from direct split_ok split_err pass ex1 ex2 ex3 show ?thesis
    by blast
qed

theorem ValidateNameserverIpAndPort_forms_witness:
  "ParseIP ''8.8.8.8'' = Some (IPv4 8 8 8 8)
   \<and> ValidateNameserverIpAndPort ''8.8.8.8'' = Inr (''8.8.8.8'', ''53'')
   \<and> ParseIP ''8.8.8.8:53'' = None
   \<and> SplitHostPort ''8.8.8.8:53'' = Inr (''8.8.8.8'', ''53'')
   \<and> Atoi ''53'' = Inr 53
   \<and> ValidateNameserverIpAndPort ''8.8.8.8:53'' = Inr (''8.8.8.8'', ''53'')
   \<and> isl (ValidateNameserverIpAndPort ''8.8.8.8:53'') = False
   \<and> length (UpstreamNameservers config_valid) \<le> 3
   \<and> validateUpstreamNameserver config_valid = None"
proof -
  have p1: "ParseIP ''8.8.8.8'' = Some (IPv4 8 8 8 8)"
    by code_simp
  have s1: "IP_String (IPv4 8 8 8 8) = ''8.8.8.8''"
    by code_simp
  have p2: "ParseIP ''8.8.8.8:53'' = None"
    by code_simp
  have sp: "SplitHostPort ''8.8.8.8:53'' = Inr (''8.8.8.8'', ''53'')"
    by code_simp
  have at: "Atoi ''53'' = Inr 53"
    by code_simp
  from p1 s1
    ValidateNameserverIpAndPort_forms [of "''8.8.8.8''" "IPv4 8 8 8 8" "[]" "[]" NewDefaultConfig]
  have a: "ValidateNameserverIpAndPort ''8.8.8.8'' = Inr (''8.8.8.8'', ''53'')"
    by simp
  from p1 p2 sp at
    ValidateNameserverIpAndPort_forms
      [of "''8.8.8.8:53''" "[]" "''8.8.8.8''" "''53''" NewDefaultConfig]
  have b: "ValidateNameserverIpAndPort ''8.8.8.8:53'' = Inr (''8.8.8.8'', ''53'')"
    and c: "isl (ValidateNameserverIpAndPort ''8.8.8.8:53'') = False"
    by simp_all
  have len: "length (UpstreamNameservers config_valid) \<le> 3"
    by (simp add: config_valid_def)
  have each: "list_all (\<lambda>n. \<not> isl (ValidateNameserverIpAndPort n))
                (UpstreamNameservers config_valid)"
    by code_simp
  from len each
    ValidateNameserverIpAndPort_forms [of "[]" "[]" "[]" "[]" config_valid]
  have d: "validateUpstreamNameserver config_valid = None"
    by blast
  from p1 p2 sp at a b c len d show ?thesis
    by blast
qed

section \<open>Bracket notation\<close>

lemma not_digit_bracket: "\<not> isDigit CHR ''[''" "\<not> isLowerHex CHR ''[''" "\<not> isUpperHex CHR ''[''"
  "\<not> isLowerAlnum CHR ''[''"
  by (simp_all add: isDigit_def isLowerHex_def isUpperHex_def isLowerAlnum_def byte_def)

lemma parseIPv4_bracket: "parseIPv4 (CHR ''['' # s) = None"
  by (simp add: parseIPv4_def parseIPv4_loop.simps [of 0] IPv4len_def dtoi_def not_digit_bracket)

lemma parseIPv6_bracket: "parseIPv6 (CHR ''['' # s) = None"
  by (simp add: parseIPv6_def parseIPv6_loop.simps [of 0] IPv6len_def xtoi_def
      not_digit_bracket Let_def)

lemma ParseIP_scan_None:
  "parseIPv4 s = None \<Longrightarrow> parseIPv6 s = None \<Longrightarrow> ParseIP_scan s cs = None"
  by (induction cs) auto

lemma ParseIP_bracket: "ParseIP (CHR ''['' # s) = None"
  by (simp add: ParseIP_def ParseIP_scan_None parseIPv4_bracket parseIPv6_bracket del: ParseIP_scan.simps)

lemma genSplit_loop_first:
  "c \<noteq> sep \<Longrightarrow> \<exists>l rest. genSplit_loop (c # s) sep k = (c # l) # rest"
  by (cases k) (auto split: option.splits)

lemma IsDNS1123Subdomain_bracket: "IsDNS1123Subdomain (CHR ''['' # s) \<noteq> []"
proof -
  have "\<exists>l rest. genSplit_loop (CHR ''['' # s) CHR ''.'' (Count (CHR ''['' # s) CHR ''.'')
           = (CHR ''['' # l) # rest"
    by (rule genSplit_loop_first) simp
  then obtain l rest where "Split (CHR ''['' # s) CHR ''.'' = (CHR ''['' # l) # rest"
    by (auto simp: Split_def SplitN_def)
  then have "\<not> dns1123Subdomain_match (CHR ''['' # s)"
    by (simp add: dns1123Subdomain_match_def dns1123Label_match_def not_digit_bracket)
  then show ?thesis
    by (simp add: IsDNS1123Subdomain_def)
qed

lemma validateStubDomains_ns_bracket:
  "validateStubDomains_ns (CHR ''['' # s) = Some (InvalidNameserver (CHR ''['' # s))"
proof -
  have "\<exists>l rest. genSplit_loop (CHR ''['' # s) CHR '':'' (Suc 0) = (CHR ''['' # l) # rest"
    by (rule genSplit_loop_first) simp
  then obtain l rest where sp: "SplitN (CHR ''['' # s) CHR '':'' 2 = (CHR ''['' # l) # rest"
    by (auto simp: SplitN_def simp del: genSplit_loop.simps)
  show ?thesis
    using IsDNS1123Subdomain_bracket [of s]
    by (simp add: validateStubDomains_ns_def sp IsValidIP_def ParseIP_bracket Let_def)
qed

lemma nsList_rejects:
  "ns \<in> set nsList \<Longrightarrow> validateStubDomains_ns ns \<noteq> None
     \<Longrightarrow> validateStubDomains_nsList nsList \<noteq> None"
  by (induction nsList) (auto split: option.splits)

lemma stub_loop_rejects_ns:
  "(d, nsList) \<in> set sd \<Longrightarrow> validateStubDomains_nsList nsList \<noteq> None
     \<Longrightarrow> validateStubDomains_loop sd \<noteq> None"
  by (induction sd) (auto split: option.splits)


lemma Validate_stub_error:
  "validateStubDomains c \<noteq> None \<Longrightarrow> Validate f c \<noteq> None"
  by (auto simp: Validate_def split: option.splits)

section \<open>Nameservers of a stub domain\<close>

lemma byteIndex_None_iff: "byteIndex s c = None \<longleftrightarrow> c \<notin> set s"
  by (induction s) (auto split: option.splits)

lemma byteIndex_Some:
  "byteIndex s c = Some m \<Longrightarrow> m < length s \<and> s ! m = c \<and> c \<notin> set (take m s)"
  by (induction s arbitrary: m) (auto split: option.splits if_splits)

lemma byteIndex_append: "c \<notin> set h \<Longrightarrow> byteIndex (h @ c # t) c = Some (length h)"
  by (induction h) auto

lemma byteIndex_decompose:
  "byteIndex s c = Some m \<Longrightarrow> s = take m s @ c # drop (m + 1) s"
  using byteIndex_Some [of s c m] id_take_nth_drop [of m s] by auto






section \<open>The two port checks\<close>

lemma ParseUint_loop_digits:
  "ParseUint_loop s m n = Inr v \<Longrightarrow> list_all isDigit s"
  by (induction s arbitrary: n) (auto simp: Let_def split: if_splits)

lemma ParseUint_loop_lower:
  "ParseUint_loop s m n = Inr v \<Longrightarrow> 0 \<le> n \<Longrightarrow> n \<le> v"
proof (induction s arbitrary: n)
  case Nil
  then show ?case by simp
next
  case (Cons c s)
  let ?n1 = "(n * 10 + (byte c - byte CHR ''0'')) mod 2 ^ 64"
  from Cons.prems have ok: "\<not> ?n1 < n * 10" and rest: "ParseUint_loop s m ?n1 = Inr v"
    by (auto simp: Let_def split: if_splits)
  have "0 \<le> ?n1" by simp
  with Cons.IH [OF rest] have "?n1 \<le> v" by simp
  with ok Cons.prems(2) show ?case by linarith
qed

lemma ParseUint_loop_maxVal:
  "0 \<le> n \<Longrightarrow> n \<le> m1 \<Longrightarrow> m1 \<le> m2 \<Longrightarrow>
     (ParseUint_loop s m1 n = Inr v \<longleftrightarrow> ParseUint_loop s m2 n = Inr v \<and> v \<le> m1)"
proof (induction s arbitrary: n)
  case Nil
  then show ?case by auto
next
  case (Cons c s)
  let ?n1 = "(n * 10 + (byte c - byte CHR ''0'')) mod 2 ^ 64"
  have n1: "0 \<le> ?n1" by simp
  show ?case
  proof (cases "?n1 \<le> m1")
    case True
    with Cons.IH [OF n1 True Cons.prems(3)] Cons.prems(3) show ?thesis
      by (auto simp: Let_def)
  next
    case False
    have "\<not> v \<le> m1" if "ParseUint_loop s m2 ?n1 = Inr v"
      using ParseUint_loop_lower [OF that n1] False by linarith
    with False show ?thesis
      by (auto simp: Let_def)
  qed
qed

lemma not_digit_sign: "\<not> isDigit CHR ''+''" "\<not> isDigit CHR ''-''" "\<not> isDigit CHR '':''"
  "\<not> isDigit CHR ''[''" "\<not> isDigit CHR '']''"
  by (simp_all add: isDigit_def byte_def)

lemma ParseUint_16_iff_Atoi:
  assumes "p \<noteq> []" and "hd p \<noteq> CHR ''+''" and "hd p \<noteq> CHR ''-''"
  shows "ParseUint p 16 = Inr v \<longleftrightarrow> Atoi p = Inr v \<and> v \<le> 65535"
proof -
  have a: "ParseUint_loop p 65535 0 = Inr v
             \<longleftrightarrow> ParseUint_loop p (2 ^ 64 - 1) 0 = Inr v \<and> v \<le> 65535"
    by (rule ParseUint_loop_maxVal) simp_all
  have b: "v < 2 ^ 63" if "v \<le> 65535"
    using that by simp
  from assms a b show ?thesis
    by (auto simp: Atoi_def ParseUint_def Let_def split: sum.splits)
qed

lemma ParseUint_signed: "ParseUint (CHR ''+'' # r) b = Inl ErrSyntax"
  "ParseUint (CHR ''-'' # r) b = Inl ErrSyntax"
  by (simp_all add: ParseUint_def not_digit_sign)

lemma Atoi_minus: "Atoi (CHR ''-'' # r) = Inr v \<Longrightarrow> v \<le> 0"
  using ParseUint_loop_lower [of r "2 ^ 64 - 1" 0]
  by (auto simp: Atoi_def ParseUint_def Let_def split: sum.splits if_splits)

lemma Atoi_digits:
  "Atoi p = Inr v \<Longrightarrow>
     list_all isDigit (if hd p = CHR ''+'' \<or> hd p = CHR ''-'' then tl p else p)"
  using ParseUint_loop_digits
  by (auto simp: Atoi_def ParseUint_def Let_def split: sum.splits if_splits)

lemma dtoi_loop_digits:
  "dtoi_loop s n i = (n1, c, True) \<Longrightarrow>
     i \<le> c \<and> c - i \<le> length s \<and> list_all isDigit (take (c - i) s)"
proof (induction s arbitrary: n i)
  case Nil
  then show ?case by (auto split: if_splits)
next
  case (Cons x s)
  show ?case
  proof (cases "isDigit x")
    case False
    with Cons.prems show ?thesis by (auto split: if_splits)
  next
    case True
    let ?n = "n * 10 + (byte x - byte CHR ''0'')"
    from True Cons.prems have rest: "dtoi_loop s ?n (i + 1) = (n1, c, True)"
      by (auto simp: Let_def split: if_splits)
    from Cons.IH [OF rest] have ih: "i + 1 \<le> c" "c - (i + 1) \<le> length s"
      "list_all isDigit (take (c - (i + 1)) s)"
      by auto
    from ih(1) have "c - i = Suc (c - (i + 1))" by simp
    with ih True show ?thesis by simp
  qed
qed

lemma parseIPv4_loop_chars:
  "parseIPv4_loop i s p = Some (s1, p1) \<Longrightarrow> \<exists>pre. s = pre @ s1 \<and> list_all dotted pre"
proof (induction i s p rule: parseIPv4_loop.induct)
  case (1 i s p)
  show ?case
  proof (cases "i < IPv4len")
    case False
    with "1.prems" show ?thesis
      by (simp add: parseIPv4_loop.simps [of i])
  next
    case True
    define s0 where "s0 = (if i > 0 then tl s else s)"
    obtain n c ok where d: "dtoi s0 = (n, c, ok)"
      by (cases "dtoi s0") auto
    from True "1.prems" d have ne: "s \<noteq> []" and dot: "\<not> (i > 0 \<and> hd s \<noteq> CHR ''.'')"
      and ok: "ok" "\<not> n > 0xFF"
      and rest: "parseIPv4_loop (i + 1) (drop c s0) (p[i := n]) = Some (s1, p1)"
      by (auto simp: parseIPv4_loop.simps [of i s p] Let_def s0_def split: if_splits)
    from "1.IH" [OF True ne dot s0_def d [symmetric] refl _ ] ok rest
    obtain pre where pre: "drop c s0 = pre @ s1" "list_all dotted pre"
      by (auto simp: s0_def)
    from d ok dtoi_loop_digits [of s0 0 0 n c]
    have dg: "list_all isDigit (take c s0)"
      by (simp add: dtoi_def)
    have s0: "s0 = take c s0 @ pre @ s1"
      using pre(1) by (metis append_take_drop_id)
    have "\<exists>q. s = q @ s0 \<and> list_all dotted q"
    proof (cases "i > 0")
      case True
      with ne dot have "s = [CHR ''.''] @ s0"
        by (cases s) (auto simp: s0_def)
      then show ?thesis
        by (intro exI [of _ "[CHR ''.'']"]) (simp add: dotted_def)
    next
      case False
      then show ?thesis
        by (intro exI [of _ "[]"]) (simp add: s0_def)
    qed
    then obtain q where q: "s = q @ s0" "list_all dotted q"
      by blast
    from q s0 have "s = (q @ take c s0 @ pre) @ s1"
      by simp
    moreover from q(2) dg pre(2) have "list_all dotted (q @ take c s0 @ pre)"
      by (auto simp: list_all_iff dotted_def)
    ultimately show ?thesis
      by blast
  qed
qed

lemma parseIPv4_chars: "parseIPv4 s = Some ip \<Longrightarrow> list_all dotted s"
  using parseIPv4_loop_chars [of 0 s "[0, 0, 0, 0]"]
  by (auto simp: parseIPv4_def split: option.splits if_splits)

lemma ParseIP_scan_no_colon:
  "CHR '':'' \<notin> set cs \<Longrightarrow>
     ParseIP_scan s (cs @ r) = (if CHR ''.'' \<in> set cs then parseIPv4 s else ParseIP_scan s r)"
  by (induction cs) auto

lemma ParseIP_no_colon:
  "CHR '':'' \<notin> set h \<Longrightarrow> ParseIP h = (if CHR ''.'' \<in> set h then parseIPv4 h else None)"
  using ParseIP_scan_no_colon [of h h "[]"] by (simp add: ParseIP_def)

lemma ParseIP_host_dotted:
  assumes "ParseIP h \<noteq> None" and "CHR '':'' \<notin> set h"
  shows "list_all dotted h" and "CHR ''.'' \<in> set h" and "h \<noteq> []"
proof -
  from assms show dot: "CHR ''.'' \<in> set h"
    by (auto simp: ParseIP_no_colon split: if_splits)
  with assms show "list_all dotted h"
    by (auto simp: ParseIP_no_colon intro: parseIPv4_chars)
  from dot show "h \<noteq> []" by auto
qed

lemma ParseIP_host_port:
  assumes "ParseIP h \<noteq> None" and "CHR '':'' \<notin> set h"
  shows "ParseIP (h @ CHR '':'' # p) = None"
proof -
  from ParseIP_host_dotted(2) [OF assms] assms(2)
  have "ParseIP (h @ CHR '':'' # p) = parseIPv4 (h @ CHR '':'' # p)"
    using ParseIP_scan_no_colon [of h "h @ CHR '':'' # p" "CHR '':'' # p"]
    by (simp add: ParseIP_def)
  moreover have "parseIPv4 (h @ CHR '':'' # p) = None"
  proof (cases "parseIPv4 (h @ CHR '':'' # p)")
    case (Some ip)
    from parseIPv4_chars [OF Some] have "dotted CHR '':''"
      by (simp add: list_all_iff)
    then show ?thesis
      by (simp add: dotted_def not_digit_sign)
  qed simp
  ultimately show ?thesis by simp
qed

lemma last_index_None_iff: "last_index s c = None \<longleftrightarrow> c \<notin> set s"
  by (induction s) (auto split: option.splits)

lemma last_index_append:
  "c \<notin> set p \<Longrightarrow> last_index (h @ c # p) c = Some (length h)"
  by (induction h) (auto simp: last_index_None_iff [THEN iffD2])

lemma last_index_later:
  "c \<in> set p \<Longrightarrow> \<exists>i. last_index (h @ c # p) c = Some i \<and> length h < i"
proof (induction h)
  case Nil
  then obtain j where "last_index p c = Some j"
    using last_index_None_iff [of p c] by (cases "last_index p c") auto
  then show ?case by simp
next
  case (Cons x h)
  then show ?case by (auto split: option.splits)
qed

lemma SplitHostPort_plain:
  assumes "CHR '':'' \<notin> set h" and "CHR '':'' \<notin> set p"
    and "CHR ''['' \<notin> set h" and "CHR '']'' \<notin> set h"
  shows "SplitHostPort (h @ CHR '':'' # p) =
           (if CHR ''['' \<in> set p then Inl UnexpectedOpen
            else if CHR '']'' \<in> set p then Inl UnexpectedClose
            else Inr (h, p))"
proof -
  from assms(3) have hd: "hd (h @ CHR '':'' # p) \<noteq> CHR ''[''"
    by (cases h) auto
  have open_iff: "byteIndex (h @ CHR '':'' # p) CHR ''['' \<noteq> None \<longleftrightarrow> CHR ''['' \<in> set p"
    using assms(3) by (simp add: byteIndex_None_iff)
  have close_iff: "byteIndex (h @ CHR '':'' # p) CHR '']'' \<noteq> None \<longleftrightarrow> CHR '']'' \<in> set p"
    using assms(4) by (simp add: byteIndex_None_iff)
  have host: "byteIndex h CHR '':'' = None"
    using assms(1) by (simp add: byteIndex_None_iff)
  show ?thesis
    using hd open_iff close_iff host
    by (simp add: SplitHostPort_def last_index_append [OF assms(2)] Let_def)
qed

lemma SplitHostPort_many_colons:
  assumes "CHR '':'' \<in> set p" and "CHR ''['' \<notin> set h"
  shows "SplitHostPort (h @ CHR '':'' # p) = Inl TooManyColons"
proof -
  from assms(2) have hd: "hd (h @ CHR '':'' # p) \<noteq> CHR ''[''"
    by (cases h) auto
  from last_index_later [OF assms(1), of h]
  obtain i where i: "last_index (h @ CHR '':'' # p) CHR '':'' = Some i" "length h < i"
    by blast
  from i(2) have "CHR '':'' \<in> set (take i (h @ CHR '':'' # p))"
    by (cases "i - length h") auto
  then have "byteIndex (take i (h @ CHR '':'' # p)) CHR '':'' \<noteq> None"
    by (simp add: byteIndex_None_iff)
  with hd i(1) show ?thesis
    by (simp add: SplitHostPort_def Let_def)
qed

lemma SplitN_host_port:
  "CHR '':'' \<notin> set h \<Longrightarrow> SplitN (h @ CHR '':'' # p) CHR '':'' 2 = [h, p]"
  by (simp add: SplitN_def byteIndex_append)

lemma stub_port_iff_Atoi:
  "\<not> isl (ParseUint p 16) \<longleftrightarrow>
     list_all isDigit p \<and> (\<exists>v. Atoi p = Inr v \<and> 0 \<le> v \<and> v \<le> 65535)"
proof (cases "p = [] \<or> hd p = CHR ''+'' \<or> hd p = CHR ''-''")
  case True
  then consider "p = []" | r where "p = CHR ''+'' # r" | r where "p = CHR ''-'' # r"
    by (cases p) auto
  then show ?thesis
  proof cases
    case 1
    then show ?thesis by (simp add: ParseUint_def Atoi_def)
  next
    case 2
    then show ?thesis by (simp add: ParseUint_signed not_digit_sign)
  next
    case 3
    then show ?thesis by (simp add: ParseUint_signed not_digit_sign)
  qed
next
  case False
  then have p: "p \<noteq> []" "hd p \<noteq> CHR ''+''" "hd p \<noteq> CHR ''-''"
    by auto
  show ?thesis
  proof
    assume "\<not> isl (ParseUint p 16)"
    then obtain v where v: "ParseUint p 16 = Inr v"
      by (cases "ParseUint p 16") auto
    with p have dg: "list_all isDigit p" and lo: "0 \<le> v"
      using ParseUint_loop_digits [of p "2 ^ 16 - 1" 0 v]
        ParseUint_loop_lower [of p "2 ^ 16 - 1" 0 v]
      by (auto simp: ParseUint_def)
    from v ParseUint_16_iff_Atoi [OF p, of v] have "Atoi p = Inr v \<and> v \<le> 65535"
      by simp
    with dg lo show "list_all isDigit p \<and> (\<exists>v. Atoi p = Inr v \<and> 0 \<le> v \<and> v \<le> 65535)"
      by blast
  next
    assume "list_all isDigit p \<and> (\<exists>v. Atoi p = Inr v \<and> 0 \<le> v \<and> v \<le> 65535)"
    then obtain v where "Atoi p = Inr v" "v \<le> 65535"
      by blast
    with ParseUint_16_iff_Atoi [OF p, of v] show "\<not> isl (ParseUint p 16)"
      by simp
  qed
qed

lemma Atoi_no_other_char:
  assumes "Atoi p = Inr v" and "c \<in> set p" and "\<not> isDigit c"
  shows "c = CHR ''+'' \<or> c = CHR ''-''"
proof (cases p)
  case Nil
  with assms(2) show ?thesis by simp
next
  case (Cons x r)
  from Atoi_digits [OF assms(1)] Cons assms(2,3) show ?thesis
    by (auto simp: list_all_iff split: if_splits)
qed

lemma upstream_port_iff_Atoi:
  assumes "ParseIP h \<noteq> None" and "CHR '':'' \<notin> set h"
  shows "\<not> isl (ValidateNameserverIpAndPort (h @ CHR '':'' # p))
           \<longleftrightarrow> (\<exists>v. Atoi p = Inr v \<and> 1 \<le> v \<and> v \<le> 65535)"
proof -
  note hchars = ParseIP_host_dotted(1) [OF assms]
  have nb: "CHR ''['' \<notin> set h" "CHR '']'' \<notin> set h"
    using hchars by (auto simp: list_all_iff dotted_def not_digit_sign)
  have whole: "ParseIP (h @ CHR '':'' # p) = None"
    by (rule ParseIP_host_port [OF assms])
  have bad: "\<not> (\<exists>v. Atoi p = Inr v)" if "c \<in> set p" "c = CHR '':'' \<or> c = CHR ''['' \<or> c = CHR '']''" for c
    using that Atoi_no_other_char [of p _ c] by (auto simp: not_digit_sign)
  show ?thesis
  proof (cases "CHR '':'' \<in> set p")
    case True
    with SplitHostPort_many_colons [OF True nb(1)] whole bad [of "CHR '':''"] show ?thesis
      by (auto simp: ValidateNameserverIpAndPort_def)
  next
    case False
    note sp = SplitHostPort_plain [OF assms(2) False nb]
    show ?thesis
    proof (cases "CHR ''['' \<in> set p \<or> CHR '']'' \<in> set p")
      case True
      with sp whole bad [of "CHR ''[''"] bad [of "CHR '']''"] show ?thesis
        by (auto simp: ValidateNameserverIpAndPort_def)
    next
      case False
      with sp whole assms(1) show ?thesis
        by (auto simp: ValidateNameserverIpAndPort_def split: sum.splits)
    qed
  qed
qed

lemma stub_port_check:
  assumes "ParseIP h \<noteq> None" and "CHR '':'' \<notin> set h"
  shows "validateStubDomains_ns (h @ CHR '':'' # p) = None \<longleftrightarrow> \<not> isl (ParseUint p 16)"
  using assms by (auto simp: validateStubDomains_ns_def SplitN_host_port IsValidIP_def)

text \<open>
  C6, as the code has it. Take a nameserver string made of an IPv4 literal, a colon
  and a port segment. The stub-domain pass cuts it at the first colon and accepts it
  exactly when the port segment parses as a 16-bit unsigned number: a string of
  decimal digits with a value from 0 to 65535, so port 0 passes. The upstream check
  accepts it exactly when \<^verbatim>\<open>Atoi\<close> reads the port segment as an integer from 1 to 65535.
  The two differ in exactly two cases: an unsigned port segment of value 0, which only
  the stub-domain pass accepts, and a port segment with a leading plus sign and a
  value from 1 to 65535, which only the upstream check accepts.
\<close>

theorem port_checks_differ:
  assumes "ParseIP h \<noteq> None" and "CHR '':'' \<notin> set h"
  shows "SplitN (h @ CHR '':'' # p) CHR '':'' 2 = [h, p]
    \<and> (validateStubDomains_ns (h @ CHR '':'' # p) = None \<longleftrightarrow> \<not> isl (ParseUint p 16))
    \<and> (\<not> isl (ParseUint p 16) \<longleftrightarrow>
          list_all isDigit p \<and> (\<exists>v. Atoi p = Inr v \<and> 0 \<le> v \<and> v \<le> 65535))
    \<and> (\<not> isl (ValidateNameserverIpAndPort (h @ CHR '':'' # p)) \<longleftrightarrow>
          (\<exists>v. Atoi p = Inr v \<and> 1 \<le> v \<and> v \<le> 65535))
    \<and> ((validateStubDomains_ns (h @ CHR '':'' # p) = None)
          \<noteq> (\<not> isl (ValidateNameserverIpAndPort (h @ CHR '':'' # p))) \<longleftrightarrow>
        (list_all isDigit p \<and> Atoi p = Inr 0)
        \<or> (\<exists>r v. p = CHR ''+'' # r \<and> Atoi p = Inr v \<and> 1 \<le> v \<and> v \<le> 65535))
    \<and> ParseUint ''0'' 16 = Inr 0"
proof -
  note split = SplitN_host_port [OF assms(2), of p]
  note stub = stub_port_check [OF assms, of p]
  note stubv = stub_port_iff_Atoi [of p]
  note up = upstream_port_iff_Atoi [OF assms, of p]
  have plus: "list_all isDigit p \<or> (\<exists>r. p = CHR ''+'' # r)"
    if "Atoi p = Inr v" "1 \<le> v" for v
  proof (cases p)
    case Nil
    then show ?thesis by simp
  next
    case (Cons x r)
    show ?thesis
    proof (cases "x = CHR ''-''")
      case True
      with Cons that Atoi_minus [of r v] show ?thesis by simp
    next
      case False
      with Cons Atoi_digits [OF that(1)] show ?thesis
        by (auto split: if_splits)
    qed
  qed
  have differ: "(validateStubDomains_ns (h @ CHR '':'' # p) = None)
          \<noteq> (\<not> isl (ValidateNameserverIpAndPort (h @ CHR '':'' # p))) \<longleftrightarrow>
        (list_all isDigit p \<and> Atoi p = Inr 0)
        \<or> (\<exists>r v. p = CHR ''+'' # r \<and> Atoi p = Inr v \<and> 1 \<le> v \<and> v \<le> 65535)"
    (is "?L \<longleftrightarrow> ?R")
  proof
    assume ?L
    then consider (zero) "\<not> isl (ParseUint p 16)" "\<not> (\<exists>v. Atoi p = Inr v \<and> 1 \<le> v \<and> v \<le> 65535)"
      | (signed) "isl (ParseUint p 16)" "\<exists>v. Atoi p = Inr v \<and> 1 \<le> v \<and> v \<le> 65535"
      unfolding stub up by blast
    then show ?R
    proof cases
      case zero
      from zero(1) stubv obtain v where v: "list_all isDigit p" "Atoi p = Inr v" "0 \<le> v" "v \<le> 65535"
        by blast
      with zero(2) have "v = 0" by force
      with v show ?thesis by blast
    next
      case signed
      then obtain v where v: "Atoi p = Inr v" "1 \<le> v" "v \<le> 65535"
        by blast
      with signed(1) stubv have "\<not> list_all isDigit p" by force
      with plus [OF v(1,2)] v show ?thesis by blast
    qed
  next
    assume ?R
    then show ?L
    proof
      assume "list_all isDigit p \<and> Atoi p = Inr 0"
      then show ?L unfolding stub up stubv by auto
    next
      assume "\<exists>r v. p = CHR ''+'' # r \<and> Atoi p = Inr v \<and> 1 \<le> v \<and> v \<le> 65535"
      then show ?L unfolding stub up stubv by (auto simp: not_digit_sign)
    qed
  qed
  have zero: "ParseUint ''0'' 16 = Inr 0"
    by code_simp
  from split stub stubv up differ zero show ?thesis
    by blast
qed

theorem port_checks_differ_witness:
  "ParseIP ''10.0.0.1'' \<noteq> None \<and> CHR '':'' \<notin> set ''10.0.0.1''
   \<and> SplitN ''10.0.0.1:0'' CHR '':'' 2 = [''10.0.0.1'', ''0'']
   \<and> validateStubDomains_ns ''10.0.0.1:0'' = None
   \<and> isl (ValidateNameserverIpAndPort ''10.0.0.1:0'')"
proof -
  have ip: "ParseIP ''10.0.0.1'' \<noteq> None"
    by code_simp
  have nc: "CHR '':'' \<notin> set ''10.0.0.1''"
    by simp
  have at: "Atoi ''0'' = Inr 0"
    by code_simp
  have dg: "list_all isDigit ''0''"
    by code_simp
  from at dg port_checks_differ [OF ip nc, of "''0''"] have
    "SplitN ''10.0.0.1:0'' CHR '':'' 2 = [''10.0.0.1'', ''0'']
     \<and> validateStubDomains_ns ''10.0.0.1:0'' = None
     \<and> isl (ValidateNameserverIpAndPort ''10.0.0.1:0'')"
    by auto
  with ip nc show ?thesis by blast
qed

text \<open>
  As the specification states it, the property fails at a port that is not 0:
  "10.0.0.1:+53" is accepted by the upstream check, where \<^verbatim>\<open>Atoi\<close> reads the port 53,
  and is an invalid nameserver for the stub-domain pass, where \<^verbatim>\<open>ParseUint\<close> refuses
  the sign.
\<close>

theorem port_checks_differ_at_signed_port:
  "Atoi ''+53'' = Inr 53
   \<and> ValidateNameserverIpAndPort ''10.0.0.1:+53'' = Inr (''10.0.0.1'', ''+53'')
   \<and> ParseUint ''+53'' 16 = Inl ErrSyntax
   \<and> validateStubDomains_ns ''10.0.0.1:+53'' = Some (InvalidNameserver ''10.0.0.1:+53'')"
proof -
  have a: "Atoi ''+53'' = Inr 53"
    by code_simp
  have b: "ValidateNameserverIpAndPort ''10.0.0.1:+53'' = Inr (''10.0.0.1'', ''+53'')"
    by code_simp
  have c: "ParseUint ''+53'' 16 = Inl ErrSyntax"
    by code_simp
  have d: "validateStubDomains_ns ''10.0.0.1:+53'' = Some (InvalidNameserver ''10.0.0.1:+53'')"
    by code_simp
  from a b c d show ?thesis by blast
qed

section \<open>Stub-domain keys\<close>





lemma validateFederations_empty: "validateFederations f NewDefaultConfig = None"
  by (simp add: validateFederations_def NewDefaultConfig_def)




section \<open>The choice of the sync source\<close>

lemma genSplit_loop_nonempty: "genSplit_loop s sep k \<noteq> []"
  by (cases k) (auto split: option.splits)

lemma Join_Cons: "rest \<noteq> [] \<Longrightarrow> Join (a # rest) sep = a @ sep # Join rest sep"
  by (cases rest) auto

lemma Join_genSplit_loop: "Join (genSplit_loop s sep k) sep = s"
proof (induction k arbitrary: s)
  case 0
  then show ?case by simp
next
  case (Suc k)
  show ?case
  proof (cases "byteIndex s sep")
    case None
    then show ?thesis by simp
  next
    case (Some m)
    with Suc.IH [of "drop (m + 1) s"] byteIndex_decompose [OF Some] show ?thesis
      by (simp add: Join_Cons genSplit_loop_nonempty)
  qed
qed

lemma Count_zero_iff: "Count s sep = 0 \<longleftrightarrow> sep \<notin> set s"
  by (auto simp: Count_def filter_empty_conv)

lemma Count_after_cut:
  assumes "byteIndex s sep = Some m"
  shows "Count s sep = Suc (Count (drop (m + 1) s) sep)"
proof -
  from byteIndex_Some [OF assms] have "filter (\<lambda>c. c = sep) (take m s) = []"
    by (auto simp: filter_empty_conv)
  then have "Count (take m s @ sep # drop (m + 1) s) sep = Suc (Count (drop (m + 1) s) sep)"
    by (simp add: Count_def)
  with byteIndex_decompose [OF assms] show ?thesis
    by simp
qed

lemma genSplit_loop_no_sep:
  "Count s sep \<le> k \<Longrightarrow> list_all (\<lambda>l. sep \<notin> set l) (genSplit_loop s sep k)"
proof (induction k arbitrary: s)
  case 0
  then show ?case by (simp add: Count_zero_iff)
next
  case (Suc k)
  show ?case
  proof (cases "byteIndex s sep")
    case None
    then have "sep \<notin> set s"
      by (simp add: byteIndex_None_iff)
    with None show ?thesis
      by simp
  next
    case (Some m)
    with Suc.prems Count_after_cut [OF Some] have "Count (drop (m + 1) s) sep \<le> k"
      by simp
    from Suc.IH [OF this] Some byteIndex_Some [OF Some] show ?thesis
      by simp
  qed
qed

lemma Split_Join: "Join (Split s sep) sep = s"
  by (simp add: Split_def SplitN_def Join_genSplit_loop)

lemma Split_no_sep: "list_all (\<lambda>l. sep \<notin> set l) (Split s sep)"
  by (simp add: Split_def SplitN_def genSplit_loop_no_sep)

text \<open>
  C1. \<^verbatim>\<open>NewConfigSync\<close> decides among four cases. With both a ConfigMap name and a
  config directory set, the process ends with a fatal error and no handle is returned.
  Otherwise a ConfigMap name selects the ConfigMap-backed sync, of the settings'
  namespace and name; otherwise a directory selects the directory-backed sync, of the
  settings' directory and period; otherwise the no-op sync is returned, wrapping a
  configuration whose federations are the settings' federation map, whose stub domains
  are empty, and whose upstream nameservers are the pieces of the comma-separated
  nameserver setting: pieces without a comma that give the setting back when joined
  by commas, and no piece at all when the setting is empty.
\<close>

theorem NewConfigSync_decision:
  "(ConfigMap cfg \<noteq> [] \<and> ConfigDir cfg \<noteq> [] \<longrightarrow>
      NewConfigSync k cfg = Fatal ''Cannot use both ConfigMap and ConfigDir''
      \<and> (\<forall>s. NewConfigSync k cfg \<noteq> Return s))
   \<and> (ConfigMap cfg \<noteq> [] \<and> ConfigDir cfg = [] \<longrightarrow>
      NewConfigSync k cfg = Return (NewConfigMapSync k (ConfigMapNs cfg) (ConfigMap cfg)))
   \<and> (ConfigMap cfg = [] \<and> ConfigDir cfg \<noteq> [] \<longrightarrow>
      NewConfigSync k cfg = Return (NewFileSync (ConfigDir cfg) (ConfigPeriod cfg)))
   \<and> (ConfigMap cfg = [] \<and> ConfigDir cfg = [] \<longrightarrow>
      (\<exists>conf. NewConfigSync k cfg = Return (NewNopSync conf)
         \<and> Config.Federations conf = DNSConfig.Federations cfg
         \<and> StubDomains conf = []
         \<and> UpstreamNameservers conf =
             (if NameServers cfg = [] then [] else Split (NameServers cfg) CHR '','')
         \<and> Join (UpstreamNameservers conf) CHR '','' = NameServers cfg
         \<and> list_all (\<lambda>ns. CHR '','' \<notin> set ns) (UpstreamNameservers conf)))"
proof -
  have both: "ConfigMap cfg \<noteq> [] \<and> ConfigDir cfg \<noteq> [] \<longrightarrow>
      NewConfigSync k cfg = Fatal ''Cannot use both ConfigMap and ConfigDir''
      \<and> (\<forall>s. NewConfigSync k cfg \<noteq> Return s)"
    by (simp add: NewConfigSync_def)
  have cm: "ConfigMap cfg \<noteq> [] \<and> ConfigDir cfg = [] \<longrightarrow>
      NewConfigSync k cfg = Return (NewConfigMapSync k (ConfigMapNs cfg) (ConfigMap cfg))"
    by (simp add: NewConfigSync_def)
  have dir: "ConfigMap cfg = [] \<and> ConfigDir cfg \<noteq> [] \<longrightarrow>
      NewConfigSync k cfg = Return (NewFileSync (ConfigDir cfg) (ConfigPeriod cfg))"
    by (simp add: NewConfigSync_def)
  have static: "ConfigMap cfg = [] \<and> ConfigDir cfg = [] \<longrightarrow>
      (\<exists>conf. NewConfigSync k cfg = Return (NewNopSync conf)
         \<and> Config.Federations conf = DNSConfig.Federations cfg
         \<and> StubDomains conf = []
         \<and> UpstreamNameservers conf =
             (if NameServers cfg = [] then [] else Split (NameServers cfg) CHR '','')
         \<and> Join (UpstreamNameservers conf) CHR '','' = NameServers cfg
         \<and> list_all (\<lambda>ns. CHR '','' \<notin> set ns) (UpstreamNameservers conf))"
    by (simp add: NewConfigSync_def Let_def Split_Join Split_no_sep)
  from both cm dir static show ?thesis
    by blast
qed

theorem NewConfigSync_decision_witness:
  "NewConfigSync () settings_both = Fatal ''Cannot use both ConfigMap and ConfigDir''
   \<and> NewConfigSync () settings_configmap = Return (NewConfigMapSync () ''kube-system'' ''kube-dns'')
   \<and> NewConfigSync () settings_dir = Return (NewFileSync ''/etc/kube-dns/'' (10 * Second))
   \<and> NewConfigSync () settings_static =
       Return (NewNopSync (NewDefaultConfig\<lparr>Config.Federations := [(''fed'', ''example.com'')],
                 UpstreamNameservers := [''8.8.8.8'', ''8.8.4.4'']\<rparr>))"
proof -
  have b: "ConfigMap settings_both \<noteq> [] \<and> ConfigDir settings_both \<noteq> []"
    by (simp add: settings_both_def NewDNSConfig_def)
  have c: "ConfigMap settings_configmap \<noteq> [] \<and> ConfigDir settings_configmap = []"
    "ConfigMapNs settings_configmap = ''kube-system''" "ConfigMap settings_configmap = ''kube-dns''"
    by (simp_all add: settings_configmap_def NewDNSConfig_def)
  have d: "ConfigMap settings_dir = [] \<and> ConfigDir settings_dir \<noteq> []"
    "ConfigDir settings_dir = ''/etc/kube-dns/''" "ConfigPeriod settings_dir = 10 * Second"
    by (simp_all add: settings_dir_def NewDNSConfig_def)
  have s: "ConfigMap settings_static = [] \<and> ConfigDir settings_static = []"
    by (simp add: settings_static_def NewDNSConfig_def)
  have sv: "NewConfigSync () settings_static =
       Return (NewNopSync (NewDefaultConfig\<lparr>Config.Federations := [(''fed'', ''example.com'')],
                 UpstreamNameservers := [''8.8.8.8'', ''8.8.4.4'']\<rparr>))"
    by code_simp
  from b NewConfigSync_decision [of settings_both "()"]
  have r1: "NewConfigSync () settings_both = Fatal ''Cannot use both ConfigMap and ConfigDir''"
    by blast
  from c NewConfigSync_decision [of settings_configmap "()"]
  have r2: "NewConfigSync () settings_configmap
              = Return (NewConfigMapSync () ''kube-system'' ''kube-dns'')"
    by simp
  from d NewConfigSync_decision [of settings_dir "()"]
  have r3: "NewConfigSync () settings_dir = Return (NewFileSync ''/etc/kube-dns/'' (10 * Second))"
    by simp
  from s NewConfigSync_decision [of settings_static "()"] sv r1 r2 r3 show ?thesis
    by blast
qed

section \<open>Bracket notation in the two passes\<close>

lemma xtoi_loop_digits:
  "xtoi_loop s n i = (n1, c, True) \<Longrightarrow>
     i \<le> c \<and> c - i \<le> length s \<and> list_all ipchar (take (c - i) s)"
proof (induction s arbitrary: n i)
  case Nil
  then show ?case by (auto split: if_splits)
next
  case (Cons x s)
  show ?case
  proof (cases "isDigit x \<or> isLowerHex x \<or> isUpperHex x")
    case False
    with Cons.prems show ?thesis by (auto split: if_splits)
  next
    case True
    then obtain n2 where rest: "xtoi_loop s n2 (i + 1) = (n1, c, True)"
      using Cons.prems by (auto simp: Let_def split: if_splits)
    from Cons.IH [OF rest] have ih: "i + 1 \<le> c" "c - (i + 1) \<le> length s"
      "list_all ipchar (take (c - (i + 1)) s)"
      by auto
    from ih(1) have "c - i = Suc (c - (i + 1))" by simp
    moreover from True have "ipchar x" by (auto simp: ipchar_def)
    ultimately show ?thesis using ih by simp
  qed
qed

lemma ipchar_colon: "ipchar CHR '':''"
  by (simp add: ipchar_def)

lemma dotted_ipchar: "list_all dotted s \<Longrightarrow> list_all ipchar s"
  by (auto simp: list_all_iff dotted_def ipchar_def)

lemma parseIPv6_loop_chars:
  "parseIPv6_loop i s ip e = Some (i1, s1, ip1, e1) \<Longrightarrow>
     \<exists>pre. s = pre @ s1 \<and> list_all ipchar pre"
proof (induction "IPv6len - i" arbitrary: i s ip e rule: less_induct)
  case less
  show ?case
  proof (cases "i < IPv6len")
    case False
    with less.prems show ?thesis
      by (simp add: parseIPv6_loop.simps [of i])
  next
    case True
    obtain n c ok where x: "xtoi s = (n, c, ok)"
      by (cases "xtoi s") auto
    from True less.prems x have ok: "ok"
      by (auto simp: parseIPv6_loop.simps [of i s ip e] split: if_splits)
    from x ok xtoi_loop_digits [of s 0 0 n c] have hex: "list_all ipchar (take c s)"
      by (simp add: xtoi_def)
    have IH: "\<exists>pre. s' = pre @ s1 \<and> list_all ipchar pre"
      if "parseIPv6_loop (i + 2) s' ip' e' = Some (i1, s1, ip1, e1)" for s' ip' e'
      using less.hyps [of "i + 2" s' ip' e'] True that by simp
    show ?thesis
    proof (cases "c < length s \<and> s ! c = CHR ''.''")
      case True
      with \<open>i < IPv6len\<close> less.prems x ok obtain ip4 where "parseIPv4 s = Some ip4" "s1 = []"
        by (auto simp: parseIPv6_loop.simps [of i s ip e] split: if_splits option.splits)
      with parseIPv4_chars [of s ip4] dotted_ipchar show ?thesis
        by auto
    next
      case False
      define t1 where "t1 = drop c s"
      have s: "s = take c s @ t1"
        by (simp add: t1_def)
      show ?thesis
      proof (cases "t1 = []")
        case True
        with \<open>i < IPv6len\<close> False less.prems x ok have "s1 = []"
          by (auto simp: parseIPv6_loop.simps [of i s ip e] Let_def t1_def split: if_splits)
        with s True hex show ?thesis
          by (intro exI [of _ "take c s"]) simp
      next
        case ne: False
        from \<open>i < IPv6len\<close> False less.prems x ok ne
        have col: "hd t1 = CHR '':''" and len: "length t1 \<noteq> 1"
          by (auto simp: parseIPv6_loop.simps [of i s ip e] Let_def t1_def split: if_splits)
        define t2 where "t2 = tl t1"
        from ne col have t1: "t1 = CHR '':'' # t2"
          by (cases t1) (auto simp: t2_def)
        show ?thesis
        proof (cases "hd t2 = CHR '':''")
          case dbl: True
          from len t1 have "t2 \<noteq> []" by auto
          with dbl obtain t3 where t2: "t2 = CHR '':'' # t3"
            by (cases t2) auto
          show ?thesis
          proof (cases "t3 = []")
            case True
            with \<open>i < IPv6len\<close> False less.prems x ok ne col len t1 t2 have "s1 = []"
              by (auto simp: parseIPv6_loop.simps [of i s ip e] Let_def t1_def [symmetric]
                  split: if_splits)
            moreover from s t1 t2 True have "s = (take c s @ ''::'') @ []"
              by simp
            moreover from hex have "list_all ipchar (take c s @ ''::'')"
              by (simp add: ipchar_colon)
            ultimately show ?thesis by metis
          next
            case False3: False
            with \<open>i < IPv6len\<close> False less.prems x ok ne col len t1 t2
            obtain ip' e' where "parseIPv6_loop (i + 2) t3 ip' e' = Some (i1, s1, ip1, e1)"
              by (auto simp: parseIPv6_loop.simps [of i s ip e] Let_def t1_def [symmetric]
                  split: if_splits)
            from IH [OF this] obtain pre where pre: "t3 = pre @ s1" "list_all ipchar pre"
              by blast
            from s t1 t2 pre have "s = (take c s @ ''::'' @ pre) @ s1"
              by simp
            moreover from hex pre(2) have "list_all ipchar (take c s @ ''::'' @ pre)"
              by (simp add: ipchar_colon)
            ultimately show ?thesis by metis
          qed
        next
          case sgl: False
          with \<open>i < IPv6len\<close> False less.prems x ok ne col len t1
          obtain ip' e' where "parseIPv6_loop (i + 2) t2 ip' e' = Some (i1, s1, ip1, e1)"
            by (auto simp: parseIPv6_loop.simps [of i s ip e] Let_def t1_def [symmetric]
                split: if_splits)
          from IH [OF this] obtain pre where pre: "t2 = pre @ s1" "list_all ipchar pre"
            by blast
          from s t1 pre have "s = (take c s @ '':'' @ pre) @ s1"
            by simp
          moreover from hex pre(2) have "list_all ipchar (take c s @ '':'' @ pre)"
            by (simp add: ipchar_colon)
          ultimately show ?thesis by metis
        qed
      qed
    qed
  qed
qed

lemma parseIPv6_chars: "parseIPv6 s = Some ip \<Longrightarrow> list_all ipchar s"
proof -
  assume some: "parseIPv6 s = Some ip"
  define lead where "lead = (length s \<ge> 2 \<and> s ! 0 = CHR '':'' \<and> s ! 1 = CHR '':'')"
  define t where "t = (if lead then drop 2 s else s)"
  have st: "\<exists>q. s = q @ t \<and> list_all ipchar q"
  proof (cases lead)
    case True
    then have "s = ''::'' @ t"
      unfolding lead_def t_def
      by (cases s; cases "tl s") (auto simp: lead_def)
    then show ?thesis
      by (intro exI [of _ "''::''"]) (simp add: ipchar_colon)
  next
    case False
    then show ?thesis
      by (intro exI [of _ "[]"]) (simp add: t_def)
  qed
  show ?thesis
  proof (cases "lead \<and> t = []")
    case True
    with st show ?thesis by auto
  next
    case False
    with some obtain i ip1 e1
      where "parseIPv6_loop 0 t (replicate IPv6len 0) (if lead then 0 else - 1)
               = Some (i, [], ip1, e1)"
      unfolding parseIPv6_def Let_def lead_def [symmetric] t_def [symmetric]
      by (auto split: option.splits if_splits)
    from parseIPv6_loop_chars [OF this] have "list_all ipchar t"
      by simp
    with st show ?thesis by auto
  qed
qed

lemma ParseIP_scan_Some:
  "ParseIP_scan s cs = Some ip \<Longrightarrow> parseIPv4 s = Some ip \<or> parseIPv6 s = Some ip"
  by (induction cs) (auto split: if_splits)

lemma ParseIP_chars: "ParseIP s \<noteq> None \<Longrightarrow> list_all ipchar s"
  using ParseIP_scan_Some [of s s] parseIPv4_chars [of s] parseIPv6_chars [of s] dotted_ipchar
  by (auto simp: ParseIP_def)

lemma not_ipchar_bracket: "\<not> ipchar CHR ''[''" "\<not> ipchar CHR '']''"
  by (simp_all add: ipchar_def isDigit_def isLowerHex_def isUpperHex_def byte_def)

lemma ParseIP_no_brackets:
  "ParseIP h \<noteq> None \<Longrightarrow> CHR ''['' \<notin> set h \<and> CHR '']'' \<notin> set h"
  using ParseIP_chars [of h] not_ipchar_bracket by (auto simp: list_all_iff)

lemma Atoi_port_chars:
  assumes "Atoi p = Inr v"
  shows "CHR '':'' \<notin> set p \<and> CHR ''['' \<notin> set p \<and> CHR '']'' \<notin> set p"
  using Atoi_no_other_char [OF assms] not_digit_sign by auto

lemma SplitHostPort_bracketed:
  assumes "CHR ''['' \<notin> set h" and "CHR '']'' \<notin> set h"
    and "CHR '':'' \<notin> set p" and "CHR ''['' \<notin> set p" and "CHR '']'' \<notin> set p"
  shows "SplitHostPort (CHR ''['' # h @ CHR '']'' # CHR '':'' # p) = Inr (h, p)"
proof -
  let ?s = "CHR ''['' # h @ CHR '']'' # CHR '':'' # p"
  have last: "last_index ?s CHR '':'' = Some (length h + 2)"
    using last_index_append [OF assms(3), of "CHR ''['' # h @ [CHR '']'']"] by simp
  have close: "byteIndex ?s CHR '']'' = Some (length h + 1)"
    using byteIndex_append [of "CHR '']''" "CHR ''['' # h" "CHR '':'' # p"] assms(2) by simp
  have host: "drop 1 (take (length h + 1) ?s) = h"
    by simp
  have no_open: "byteIndex (drop 1 ?s) CHR ''['' = None"
    using assms(1,4) by (intro byteIndex_None_iff [THEN iffD2]) simp
  have no_close: "byteIndex (drop (length h + 1 + 1) ?s) CHR '']'' = None"
    using assms(5) by (intro byteIndex_None_iff [THEN iffD2]) simp
  have port: "drop (length h + 2 + 1) ?s = p"
    by simp
  show ?thesis
    unfolding SplitHostPort_def last close
    using host no_open no_close port
    by (simp add: Let_def del: drop_Suc_Cons take_Suc_Cons)
qed

lemma upstream_accepts_bracketed:
  assumes "ParseIP h \<noteq> None" and "Atoi p = Inr v" and "1 \<le> v" and "v \<le> 65535"
  shows "ValidateNameserverIpAndPort (CHR ''['' # h @ CHR '']'' # CHR '':'' # p) = Inr (h, p)"
proof -
  note hb = ParseIP_no_brackets [OF assms(1)]
  note pc = Atoi_port_chars [OF assms(2)]
  from hb pc have "SplitHostPort (CHR ''['' # h @ CHR '']'' # CHR '':'' # p) = Inr (h, p)"
    by (intro SplitHostPort_bracketed) simp_all
  with assms show ?thesis
    by (auto simp: ValidateNameserverIpAndPort_def ParseIP_bracket)
qed

lemma Validate_upstream_only:
  "validateFederations f c = None \<Longrightarrow> validateStubDomains c = None
     \<Longrightarrow> Validate f c = validateUpstreamNameserver c"
  by (auto simp: Validate_def split: option.splits)

text \<open>
  C4, as the code has it. Bracket notation is refused by the stub-domain pass only:
  every nameserver string that starts with an opening bracket is an invalid
  nameserver there, so a configuration holding one in a stub-domain list fails the
  stub-domain pass and \<^verbatim>\<open>Validate\<close>. The upstream check goes through
  \<^verbatim>\<open>net.SplitHostPort\<close>, which reads the brackets: for every IP literal \<open>h\<close>, IPv4 or
  IPv6, and every port \<open>p\<close> that \<^verbatim>\<open>Atoi\<close> reads as an integer from 1 to 65535, the string
  \<open>[h]:p\<close> is accepted with the result \<open>(h, p)\<close>; a configuration with that one upstream
  entry passes the upstream pass, and \<^verbatim>\<open>Validate\<close> when the two earlier passes succeed.
\<close>

theorem stub_pass_rejects_brackets:
  "validateStubDomains_ns (CHR ''['' # s) = Some (InvalidNameserver (CHR ''['' # s))
   \<and> ((d, nsList) \<in> set (StubDomains c) \<and> CHR ''['' # s \<in> set nsList \<longrightarrow>
         validateStubDomains c \<noteq> None \<and> Validate f c \<noteq> None)
   \<and> (ParseIP h \<noteq> None \<and> Atoi p = Inr v \<and> 1 \<le> v \<and> v \<le> 65535 \<longrightarrow>
         ValidateNameserverIpAndPort (CHR ''['' # h @ CHR '']'' # CHR '':'' # p) = Inr (h, p)
         \<and> (UpstreamNameservers c = [CHR ''['' # h @ CHR '']'' # CHR '':'' # p] \<longrightarrow>
              validateUpstreamNameserver c = None)
         \<and> (UpstreamNameservers c = [CHR ''['' # h @ CHR '']'' # CHR '':'' # p]
              \<and> validateFederations f c = None \<and> validateStubDomains c = None \<longrightarrow>
              Validate f c = None))
   \<and> ValidateNameserverIpAndPort ''[2001:db8::68]:5353'' = Inr (''2001:db8::68'', ''5353'')"
proof -
  have one: "validateStubDomains_ns (CHR ''['' # s) = Some (InvalidNameserver (CHR ''['' # s))"
    by (rule validateStubDomains_ns_bracket)
  have pass: "validateStubDomains c \<noteq> None \<and> Validate f c \<noteq> None"
    if "(d, nsList) \<in> set (StubDomains c)" and "CHR ''['' # s \<in> set nsList"
  proof -
    from that(2) one have "validateStubDomains_nsList nsList \<noteq> None"
      by (intro nsList_rejects [of "CHR ''['' # s"]) simp_all
    with that(1) have "validateStubDomains c \<noteq> None"
      unfolding validateStubDomains_def by (rule stub_loop_rejects_ns)
    then show ?thesis
      by (simp add: Validate_stub_error)
  qed
  have upg: "ValidateNameserverIpAndPort (CHR ''['' # h @ CHR '']'' # CHR '':'' # p) = Inr (h, p)
         \<and> (UpstreamNameservers c = [CHR ''['' # h @ CHR '']'' # CHR '':'' # p] \<longrightarrow>
              validateUpstreamNameserver c = None)
         \<and> (UpstreamNameservers c = [CHR ''['' # h @ CHR '']'' # CHR '':'' # p]
              \<and> validateFederations f c = None \<and> validateStubDomains c = None \<longrightarrow>
              Validate f c = None)"
    if "ParseIP h \<noteq> None" "Atoi p = Inr v" "1 \<le> v" "v \<le> 65535"
  proof -
    note acc = upstream_accepts_bracketed [OF that]
    then have up: "validateUpstreamNameserver c = None"
      if "UpstreamNameservers c = [CHR ''['' # h @ CHR '']'' # CHR '':'' # p]"
      using that by (simp add: validateUpstreamNameserver_def)
    with acc Validate_upstream_only [of f c] show ?thesis
      by auto
  qed
  have up: "ValidateNameserverIpAndPort ''[2001:db8::68]:5353'' = Inr (''2001:db8::68'', ''5353'')"
    by code_simp
  from one pass upg up show ?thesis
    by blast
qed

theorem stub_pass_rejects_brackets_witness:
  "(''acme.local'', [''[::1]:53'']) \<in> set (StubDomains config_bracket_stub)
   \<and> validateStubDomains config_bracket_stub \<noteq> None
   \<and> Validate fed_example config_bracket_stub \<noteq> None
   \<and> ParseIP ''fe80::1'' \<noteq> None
   \<and> Atoi ''8053'' = Inr 8053
   \<and> ValidateNameserverIpAndPort ''[fe80::1]:8053'' = Inr (''fe80::1'', ''8053'')
   \<and> validateUpstreamNameserver config_bracket_upstream_8053 = None
   \<and> Validate fed_example config_bracket_upstream_8053 = None"
proof -
  have mem: "(''acme.local'', [''[::1]:53'']) \<in> set (StubDomains config_bracket_stub)"
    by (simp add: config_bracket_stub_def)
  have mem2: "CHR ''['' # ''::1]:53'' \<in> set [''[::1]:53'']"
    by simp
  from mem mem2
    stub_pass_rejects_brackets [of "''::1]:53''" "''acme.local''" "[''[::1]:53'']"
       config_bracket_stub fed_example]
  have stub: "validateStubDomains config_bracket_stub \<noteq> None
     \<and> Validate fed_example config_bracket_stub \<noteq> None"
    by blast
  have ip: "ParseIP ''fe80::1'' \<noteq> None"
    by code_simp
  have port: "Atoi ''8053'' = Inr 8053"
    by code_simp
  have ups: "UpstreamNameservers config_bracket_upstream_8053
               = [CHR ''['' # ''fe80::1'' @ CHR '']'' # CHR '':'' # ''8053'']"
    by (simp add: config_bracket_upstream_8053_def)
  have fedr: "validateFederations fed_example config_bracket_upstream_8053 = None"
    by code_simp
  have stubs: "validateStubDomains config_bracket_upstream_8053 = None"
    by code_simp
  from ip port ups fedr stubs
    stub_pass_rejects_brackets [of "[]" "[]" "[]" config_bracket_upstream_8053 fed_example
       "''fe80::1''" "''8053''" 8053]
  have up: "ValidateNameserverIpAndPort ''[fe80::1]:8053'' = Inr (''fe80::1'', ''8053'')
     \<and> validateUpstreamNameserver config_bracket_upstream_8053 = None
     \<and> Validate fed_example config_bracket_upstream_8053 = None"
    by simp
  from mem stub ip port up show ?thesis
    by blast
qed

text \<open>
  As the specification states it, the property fails for the upstream list:
  "[::1]:53" is accepted by the upstream check, and a configuration with that one
  upstream entry is valid.
\<close>

theorem upstream_pass_accepts_brackets:
  "ValidateNameserverIpAndPort ''[::1]:53'' = Inr (''::1'', ''53'')
   \<and> validateUpstreamNameserver config_bracket_upstream = None
   \<and> Validate fed_example config_bracket_upstream = None"
proof -
  have a: "ValidateNameserverIpAndPort ''[::1]:53'' = Inr (''::1'', ''53'')"
    by code_simp
  have b: "validateUpstreamNameserver config_bracket_upstream = None"
    by code_simp
  have c: "Validate fed_example config_bracket_upstream = None"
    by code_simp
  from a b c show ?thesis by blast
qed

section \<open>Which nameservers the stub-domain pass accepts\<close>










end
